theory Spec2Isabelle
  imports Main
begin

section \<open>The element type and what can fail\<close>

text \<open>
  \<^verbatim>\<open>vector.h\<close> is a class template over an element type \<open>T\<close>. The model is
  polymorphic in the values \<open>'a\<close> of \<open>T\<close>; everything else the code asks of \<open>T\<close> is
  collected in an environment:
  \<^item> the two traits the \<^verbatim>\<open>if constexpr\<close> tests read;
  \<^item> \<open>moved_from x\<close>, the value a move constructor or move assignment leaves in its
    source (the identity for a type that only copies);
  \<^item> \<open>value_init\<close>, the value of \<^verbatim>\<open>T()\<close>;
  \<^item> \<open>throws k\<close>: whether the \<open>k\<close>-th element operation that is allowed to throw
    (counted from 0 over the whole run) throws. Constructors, copy and move assignments
    each take one tick; a move construction takes one only when the type is not
    \<^verbatim>\<open>is_nothrow_move_constructible\<close>; destructors never throw;
  \<^item> \<open>sizeof_T\<close>, the value of \<^verbatim>\<open>sizeof(T)\<close>, in bytes;
  \<^item> \<open>alloc_fails n\<close>: whether \<^verbatim>\<open>operator new\<close> throws when \<^verbatim>\<open>Allocate(n)\<close> calls it.

  \<^verbatim>\<open>size_t\<close> is 64 bits wide. The sizes and capacities of vectors are kept in \<open>nat\<close>:
  the block of a live vector is real memory, less than \<open>2 ^ 63\<close> bytes, so that neither
  \<^verbatim>\<open>size_ * 2\<close> nor the byte count of that many elements wraps. A count that the caller
  chooses (\<^verbatim>\<open>Reserve\<close>, \<^verbatim>\<open>Vector(size)\<close>) has no such bound, and the product
  \<^verbatim>\<open>n * sizeof(T)\<close> of \<^verbatim>\<open>Allocate\<close> is taken modulo \<open>2 ^ 64\<close> there. The \<^verbatim>\<open>int\<close>
  of \<^verbatim>\<open>Emplace\<close> is 32 bits wide and its wrap-around is written out (\<open>to_int\<close>).
\<close>

datatype error = AllocationError | ElementFailure

record 'a env =
  nothrow_move_constructible :: bool
  copy_constructible :: bool
  moved_from :: "'a \<Rightarrow> 'a"
  value_init :: 'a
  throws :: "nat \<Rightarrow> bool"
  sizeof_T :: nat
  alloc_fails :: "nat \<Rightarrow> bool"

text \<open>
  The part of the run that is not a vector: the number of ticks used so far, and the
  objects whose storage was given back to the heap while they were still alive (their
  destructor never ran).
\<close>

record 'a log =
  ops :: nat
  leaked :: "'a list"

text \<open>
  A call returns a value, leaves by an exception, or steps outside what has a meaning:
  a read or an assignment at a slot with no live object, the destruction of such a slot,
  an address outside the block. A new object built over a live one ends the life of the
  old one without its destructor; for an arbitrary \<open>T\<close> that is counted as undefined
  too.
\<close>

datatype ('r, 's) outcome = Returned 'r 's | Thrown error 's | Undefined

section \<open>RawMemory\<close>

text \<open>
  A block of \<^verbatim>\<open>capacity_\<close> slots; a slot is raw memory (\<open>None\<close>) or holds a live object
  (\<open>Some x\<close>). \<^verbatim>\<open>buffer_\<close> and \<^verbatim>\<open>capacity_\<close> are one list: the null buffer of capacity 0
  is \<open>[]\<close>.
\<close>

type_synonym 'a RawMemory = "'a option list"

text \<open>
  \<^verbatim>\<open>Allocate(n)\<close>, by its comment, allocates raw memory for \<open>n\<close> elements. It hands
  \<^verbatim>\<open>operator new\<close> the product \<^verbatim>\<open>n * sizeof(T)\<close>, computed in \<^verbatim>\<open>size_t\<close>. The block
  that comes back has room for as many objects as that many bytes hold: \<open>n\<close> of them
  when the product is below \<open>2 ^ 64\<close>, fewer when it wraps. Nothing in the code checks
  for the wrap: \<^verbatim>\<open>capacity_\<close> is set to \<open>n\<close> in either case.
\<close>

definition Allocate :: "'a env \<Rightarrow> nat \<Rightarrow> error + 'a RawMemory" where
  "Allocate E n =
     (if n = 0 then Inr []
      else if alloc_fails E n then Inl AllocationError
      else Inr (replicate (nat (int n * int (sizeof_T E) mod 2 ^ 64) div sizeof_T E) None))"

text \<open>The byte count of \<open>n\<close> elements is a value of \<^verbatim>\<open>size_t\<close>: the product does not wrap.\<close>

definition fits_size_t :: "'a env \<Rightarrow> nat \<Rightarrow> bool" where
  "fits_size_t E n = (0 < sizeof_T E \<and> int n * int (sizeof_T E) < 2 ^ 64)"

text \<open>
  The same call for a count taken from a live vector: its size (the copy constructor),
  or twice its size (growth in \<^verbatim>\<open>EmplaceBack\<close> and \<^verbatim>\<open>Emplace\<close>). The block of that vector
  is less than \<open>2 ^ 63\<close> bytes of real memory, so the product does not wrap, and the new
  block has \<open>n\<close> slots. Wherever the byte count fits, this is \<open>Allocate\<close>
  (\<open>Allocate_live_fits\<close>).
\<close>

definition Allocate_live :: "'a env \<Rightarrow> nat \<Rightarrow> error + 'a RawMemory" where
  "Allocate_live E n =
     (if n \<noteq> 0 \<and> alloc_fails E n then Inl AllocationError else Inr (replicate n None))"

text \<open>\<^verbatim>\<open>~RawMemory\<close> frees the block and destroys nothing in it.\<close>

definition RawMemory_dtor :: "'a RawMemory \<Rightarrow> 'a log \<Rightarrow> 'a log" where
  "RawMemory_dtor buffer w =
     w\<lparr>leaked := leaked w @ map the (filter (\<lambda>s. s \<noteq> None) buffer)\<rparr>"

section \<open>The standard algorithms the vector calls\<close>

definition destroy_at :: "'a RawMemory \<Rightarrow> nat \<Rightarrow> 'a RawMemory option" where
  "destroy_at st i =
     (if i < length st \<and> st ! i \<noteq> None then Some (st[i := None]) else None)"

fun destroy_n :: "'a RawMemory \<Rightarrow> nat \<Rightarrow> nat \<Rightarrow> 'a RawMemory option" where
  "destroy_n st first 0 = Some st"
| "destroy_n st first (Suc n) =
     (case destroy_at st first of
        None \<Rightarrow> None
      | Some st' \<Rightarrow> destroy_n st' (Suc first) n)"

text \<open>\<^verbatim>\<open>new (p) T(args...)\<close>, where \<open>x\<close> is the value the arguments denote.\<close>

definition construct_at ::
  "'a env \<Rightarrow> 'a RawMemory \<Rightarrow> nat \<Rightarrow> 'a \<Rightarrow> nat \<Rightarrow> (unit, 'a RawMemory \<times> nat) outcome" where
  "construct_at E st i x k =
     (if i < length st \<and> st ! i = None then
        if throws E k then Thrown ElementFailure (st, Suc k)
        else Returned () (st[i := Some x], Suc k)
      else Undefined)"

definition move_ctor_throws :: "'a env \<Rightarrow> nat \<Rightarrow> bool" where
  "move_ctor_throws E k = (if nothrow_move_constructible E then False else throws E k)"

definition move_ctor_tick :: "'a env \<Rightarrow> nat \<Rightarrow> nat" where
  "move_ctor_tick E k = (if nothrow_move_constructible E then k else Suc k)"

text \<open>
  \<^verbatim>\<open>uninitialized_copy_n(first, count, d_first)\<close>: objects are built in order from
  \<open>d_first\<close> on; when a copy throws, the objects built so far, \<open>[d_first, current)\<close>, are
  destroyed and the exception leaves. The result holds the source block, the
  destination block and the ticks.
\<close>

fun uninitialized_copy_loop ::
  "'a env \<Rightarrow> 'a RawMemory \<Rightarrow> nat \<Rightarrow> nat \<Rightarrow> nat \<Rightarrow> nat \<Rightarrow> 'a RawMemory \<Rightarrow> nat
     \<Rightarrow> (unit, 'a RawMemory \<times> 'a RawMemory \<times> nat) outcome" where
  "uninitialized_copy_loop E src first d_first current 0 dst k = Returned () (src, dst, k)"
| "uninitialized_copy_loop E src first d_first current (Suc count) dst k =
     (if first < length src \<and> current < length dst then
        (case (src ! first, dst ! current) of
           (Some x, None) \<Rightarrow>
             if throws E k then
               (case destroy_n dst d_first (current - d_first) of
                  None \<Rightarrow> Undefined
                | Some dst' \<Rightarrow> Thrown ElementFailure (src, dst', Suc k))
             else uninitialized_copy_loop E src (Suc first) d_first (Suc current) count
                    (dst[current := Some x]) (Suc k)
         | _ \<Rightarrow> Undefined)
      else Undefined)"

definition uninitialized_copy_n ::
  "'a env \<Rightarrow> 'a RawMemory \<Rightarrow> nat \<Rightarrow> nat \<Rightarrow> 'a RawMemory \<Rightarrow> nat \<Rightarrow> nat
     \<Rightarrow> (unit, 'a RawMemory \<times> 'a RawMemory \<times> nat) outcome" where
  "uninitialized_copy_n E src first count dst d_first k =
     uninitialized_copy_loop E src first d_first d_first count dst k"

text \<open>
  \<^verbatim>\<open>uninitialized_move_n\<close>: the same loop with the move constructor, so each source
  already moved is left in its moved-from state, also when a later move throws.
\<close>

fun uninitialized_move_loop ::
  "'a env \<Rightarrow> 'a RawMemory \<Rightarrow> nat \<Rightarrow> nat \<Rightarrow> nat \<Rightarrow> nat \<Rightarrow> 'a RawMemory \<Rightarrow> nat
     \<Rightarrow> (unit, 'a RawMemory \<times> 'a RawMemory \<times> nat) outcome" where
  "uninitialized_move_loop E src first d_first current 0 dst k = Returned () (src, dst, k)"
| "uninitialized_move_loop E src first d_first current (Suc count) dst k =
     (if first < length src \<and> current < length dst then
        (case (src ! first, dst ! current) of
           (Some x, None) \<Rightarrow>
             if move_ctor_throws E k then
               (case destroy_n dst d_first (current - d_first) of
                  None \<Rightarrow> Undefined
                | Some dst' \<Rightarrow> Thrown ElementFailure (src, dst', move_ctor_tick E k))
             else uninitialized_move_loop E (src[first := Some (moved_from E x)]) (Suc first)
                    d_first (Suc current) count (dst[current := Some x]) (move_ctor_tick E k)
         | _ \<Rightarrow> Undefined)
      else Undefined)"

definition uninitialized_move_n ::
  "'a env \<Rightarrow> 'a RawMemory \<Rightarrow> nat \<Rightarrow> nat \<Rightarrow> 'a RawMemory \<Rightarrow> nat \<Rightarrow> nat
     \<Rightarrow> (unit, 'a RawMemory \<times> 'a RawMemory \<times> nat) outcome" where
  "uninitialized_move_n E src first count dst d_first k =
     uninitialized_move_loop E src first d_first d_first count dst k"

fun uninitialized_value_construct_loop ::
  "'a env \<Rightarrow> nat \<Rightarrow> nat \<Rightarrow> nat \<Rightarrow> 'a RawMemory \<Rightarrow> nat \<Rightarrow> (unit, 'a RawMemory \<times> nat) outcome" where
  "uninitialized_value_construct_loop E first current 0 st k = Returned () (st, k)"
| "uninitialized_value_construct_loop E first current (Suc count) st k =
     (if current < length st \<and> st ! current = None then
        if throws E k then
          (case destroy_n st first (current - first) of
             None \<Rightarrow> Undefined
           | Some st' \<Rightarrow> Thrown ElementFailure (st', Suc k))
        else uninitialized_value_construct_loop E first (Suc current) count
               (st[current := Some (value_init E)]) (Suc k)
      else Undefined)"

definition uninitialized_value_construct_n ::
  "'a env \<Rightarrow> 'a RawMemory \<Rightarrow> nat \<Rightarrow> nat \<Rightarrow> nat \<Rightarrow> (unit, 'a RawMemory \<times> nat) outcome" where
  "uninitialized_value_construct_n E st first count k =
     uninitialized_value_construct_loop E first first count st k"

text \<open>
  \<^verbatim>\<open>std::copy(first, first + count, d_first)\<close> between two blocks: copy assignment,
  element by element. What an assignment that throws leaves in its target is up to
  \<open>T\<close>; here the target keeps its value.
\<close>

fun std_copy ::
  "'a env \<Rightarrow> 'a RawMemory \<Rightarrow> nat \<Rightarrow> nat \<Rightarrow> 'a RawMemory \<Rightarrow> nat \<Rightarrow> nat
     \<Rightarrow> (unit, 'a RawMemory \<times> nat) outcome" where
  "std_copy E src first 0 dst d_first k = Returned () (dst, k)"
| "std_copy E src first (Suc count) dst d_first k =
     (if first < length src \<and> d_first < length dst then
        (case (src ! first, dst ! d_first) of
           (Some x, Some y) \<Rightarrow>
             if throws E k then Thrown ElementFailure (dst, Suc k)
             else std_copy E src (Suc first) count (dst[d_first := Some x]) (Suc d_first) (Suc k)
         | _ \<Rightarrow> Undefined)
      else Undefined)"

text \<open>
  \<^verbatim>\<open>std::move(first, first + count, d_first)\<close> and
  \<^verbatim>\<open>std::move_backward(last - count, last, d_last)\<close> inside one block: move
  assignment, front to back and back to front.
\<close>

fun std_move ::
  "'a env \<Rightarrow> 'a RawMemory \<Rightarrow> nat \<Rightarrow> nat \<Rightarrow> nat \<Rightarrow> nat \<Rightarrow> (unit, 'a RawMemory \<times> nat) outcome" where
  "std_move E st first 0 d_first k = Returned () (st, k)"
| "std_move E st first (Suc count) d_first k =
     (if first < length st \<and> d_first < length st then
        (case (st ! first, st ! d_first) of
           (Some x, Some y) \<Rightarrow>
             if throws E k then Thrown ElementFailure (st, Suc k)
             else std_move E (st[first := Some (moved_from E x), d_first := Some x])
                    (Suc first) count (Suc d_first) (Suc k)
         | _ \<Rightarrow> Undefined)
      else Undefined)"

fun std_move_backward ::
  "'a env \<Rightarrow> 'a RawMemory \<Rightarrow> nat \<Rightarrow> nat \<Rightarrow> nat \<Rightarrow> nat \<Rightarrow> (unit, 'a RawMemory \<times> nat) outcome" where
  "std_move_backward E st last_i 0 d_last k = Returned () (st, k)"
| "std_move_backward E st last_i (Suc count) d_last k =
     (if 0 < last_i \<and> last_i - 1 < length st \<and> 0 < d_last \<and> d_last - 1 < length st then
        (case (st ! (last_i - 1), st ! (d_last - 1)) of
           (Some x, Some y) \<Rightarrow>
             if throws E k then Thrown ElementFailure (st, Suc k)
             else std_move_backward E (st[last_i - 1 := Some (moved_from E x), d_last - 1 := Some x])
                    (last_i - 1) count (d_last - 1) (Suc k)
         | _ \<Rightarrow> Undefined)
      else Undefined)"

section \<open>Vector\<close>

text \<open>The members \<^verbatim>\<open>data_\<close> and \<^verbatim>\<open>size_\<close>.\<close>

record 'a Vector =
  m_data :: "'a RawMemory"
  m_size :: nat

definition Vector_default :: "'a Vector" where
  "Vector_default = \<lparr>m_data = [], m_size = 0\<rparr>"

definition Size :: "'a Vector \<Rightarrow> nat" where
  "Size v = m_size v"

definition Capacity :: "'a Vector \<Rightarrow> nat" where
  "Capacity v = length (m_data v)"

text \<open>The values of the elements, in order: what \<^verbatim>\<open>operator[]\<close> reads at \<open>0 .. size_ - 1\<close>.\<close>

definition elems :: "'a Vector \<Rightarrow> 'a list" where
  "elems v = map the (take (m_size v) (m_data v))"

text \<open>
  The invariant of the data model: \<open>size \<le> capacity\<close>, the slots \<open>[0, size)\<close> hold
  live objects, the slots \<open>[size, capacity)\<close> are raw memory.
\<close>

definition vector_inv :: "'a Vector \<Rightarrow> bool" where
  "vector_inv v =
     (m_size v \<le> length (m_data v)
      \<and> list_all (\<lambda>s. s \<noteq> None) (take (m_size v) (m_data v))
      \<and> list_all (\<lambda>s. s = None) (drop (m_size v) (m_data v)))"

text \<open>\<^verbatim>\<open>~Vector\<close>: destroys the \<open>size_\<close> elements, then the block is freed.\<close>

definition Vector_dtor :: "'a Vector \<Rightarrow> 'a log \<Rightarrow> 'a log option" where
  "Vector_dtor v w =
     (case destroy_n (m_data v) 0 (m_size v) of
        None \<Rightarrow> None
      | Some st \<Rightarrow> Some (RawMemory_dtor st w))"

text \<open>
  \<^verbatim>\<open>Reserve(new_capacity)\<close>. The new block is whatever \<^verbatim>\<open>Allocate\<close> returned; the
  relocation writes \<open>size_\<close> objects into it, past its end when it is too short. After
  the swap \<^verbatim>\<open>capacity_\<close> is \<open>new_capacity\<close>: a block with fewer slots than that is not
  described by its \<^verbatim>\<open>capacity_\<close> any more, and nothing that follows has a meaning.
\<close>

definition Reserve ::
  "'a env \<Rightarrow> nat \<Rightarrow> 'a Vector \<Rightarrow> 'a log \<Rightarrow> (unit, 'a Vector \<times> 'a log) outcome" where
  "Reserve E new_capacity v w =
     (if new_capacity \<le> Capacity v then Returned () (v, w)
      else
        (case Allocate E new_capacity of
           Inl e \<Rightarrow> Thrown e (v, w)
         | Inr new_data \<Rightarrow>
             (case (if nothrow_move_constructible E \<or> \<not> copy_constructible E
                    then uninitialized_move_n E (m_data v) 0 (m_size v) new_data 0 (ops w)
                    else uninitialized_copy_n E (m_data v) 0 (m_size v) new_data 0 (ops w)) of
                Undefined \<Rightarrow> Undefined
              | Thrown e (old, new_data', k) \<Rightarrow>
                  Thrown e (v\<lparr>m_data := old\<rparr>, RawMemory_dtor new_data' (w\<lparr>ops := k\<rparr>))
              | Returned u (old, new_data', k) \<Rightarrow>
                  (case destroy_n old 0 (m_size v) of
                     None \<Rightarrow> Undefined
                   | Some old' \<Rightarrow>
                       if length new_data' = new_capacity
                       then Returned () (v\<lparr>m_data := new_data'\<rparr>,
                                         RawMemory_dtor old' (w\<lparr>ops := k\<rparr>))
                       else Undefined))))"

text \<open>
  The constructors. A constructor that throws leaves no vector behind: the block it
  had allocated is freed by \<^verbatim>\<open>~RawMemory\<close>. \<^verbatim>\<open>Vector(size)\<close> takes its count from
  the caller, the copy constructor from a live vector.
\<close>

definition Vector_sized :: "'a env \<Rightarrow> nat \<Rightarrow> 'a log \<Rightarrow> ('a Vector, 'a log) outcome" where
  "Vector_sized E n w =
     (case Allocate E n of
        Inl e \<Rightarrow> Thrown e w
      | Inr d \<Rightarrow>
          (case uninitialized_value_construct_n E d 0 n (ops w) of
             Undefined \<Rightarrow> Undefined
           | Thrown e (d', k) \<Rightarrow> Thrown e (RawMemory_dtor d' (w\<lparr>ops := k\<rparr>))
           | Returned u (d', k) \<Rightarrow> Returned \<lparr>m_data = d', m_size = n\<rparr> (w\<lparr>ops := k\<rparr>)))"

definition Vector_copy :: "'a env \<Rightarrow> 'a Vector \<Rightarrow> 'a log \<Rightarrow> ('a Vector, 'a log) outcome" where
  "Vector_copy E other w =
     (case Allocate_live E (m_size other) of
        Inl e \<Rightarrow> Thrown e w
      | Inr d \<Rightarrow>
          (case uninitialized_copy_n E (m_data other) 0 (m_size other) d 0 (ops w) of
             Undefined \<Rightarrow> Undefined
           | Thrown e (s, d', k) \<Rightarrow> Thrown e (RawMemory_dtor d' (w\<lparr>ops := k\<rparr>))
           | Returned u (s, d', k) \<Rightarrow>
               Returned \<lparr>m_data = d', m_size = m_size other\<rparr> (w\<lparr>ops := k\<rparr>)))"

text \<open>The move constructor: the new vector, and \<open>other\<close> as it is left.\<close>

definition Vector_move :: "'a Vector \<Rightarrow> 'a Vector \<times> 'a Vector" where
  "Vector_move other =
     (\<lparr>m_data = m_data other, m_size = m_size other\<rparr>, \<lparr>m_data = [], m_size = 0\<rparr>)"

definition RawMemory_Swap :: "'a RawMemory \<Rightarrow> 'a RawMemory \<Rightarrow> 'a RawMemory \<times> 'a RawMemory" where
  "RawMemory_Swap this other = (other, this)"

text \<open>
  Operations on two vectors take \<^verbatim>\<open>*this\<close> and the other vector, two different
  objects, and give both back.
\<close>

definition Swap :: "'a Vector \<Rightarrow> 'a Vector \<Rightarrow> 'a Vector \<times> 'a Vector" where
  "Swap this other =
     (case RawMemory_Swap (m_data this) (m_data other) of
        (d, od) \<Rightarrow> (\<lparr>m_data = d, m_size = m_size other\<rparr>, \<lparr>m_data = od, m_size = m_size this\<rparr>))"

text \<open>
  \<^verbatim>\<open>operator=(const Vector&)\<close> for \<^verbatim>\<open>this != &rhs\<close> (on \<^verbatim>\<open>this == &rhs\<close> it returns
  at once). The local \<^verbatim>\<open>rhs_copy\<close> is destroyed when the copy-and-swap branch ends.
\<close>

definition copy_assign ::
  "'a env \<Rightarrow> 'a Vector \<Rightarrow> 'a Vector \<Rightarrow> 'a log
     \<Rightarrow> (unit, 'a Vector \<times> 'a Vector \<times> 'a log) outcome" where
  "copy_assign E this rhs w =
     (if m_size rhs > Capacity this then
        (case Vector_copy E rhs w of
           Undefined \<Rightarrow> Undefined
         | Thrown e w' \<Rightarrow> Thrown e (this, rhs, w')
         | Returned rhs_copy w' \<Rightarrow>
             (case Swap this rhs_copy of
                (this', rhs_copy') \<Rightarrow>
                  (case Vector_dtor rhs_copy' w' of
                     None \<Rightarrow> Undefined
                   | Some w'' \<Rightarrow> Returned () (this', rhs, w''))))
      else if m_size rhs < m_size this then
        (case std_copy E (m_data rhs) 0 (m_size rhs) (m_data this) 0 (ops w) of
           Undefined \<Rightarrow> Undefined
         | Thrown e (d, k) \<Rightarrow> Thrown e (this\<lparr>m_data := d\<rparr>, rhs, w\<lparr>ops := k\<rparr>)
         | Returned u (d, k) \<Rightarrow>
             (case destroy_n d (m_size rhs) (m_size this - m_size rhs) of
                None \<Rightarrow> Undefined
              | Some d' \<Rightarrow>
                  Returned () (\<lparr>m_data = d', m_size = m_size rhs\<rparr>, rhs, w\<lparr>ops := k\<rparr>)))
      else
        (case std_copy E (m_data rhs) 0 (m_size this) (m_data this) 0 (ops w) of
           Undefined \<Rightarrow> Undefined
         | Thrown e (d, k) \<Rightarrow> Thrown e (this\<lparr>m_data := d\<rparr>, rhs, w\<lparr>ops := k\<rparr>)
         | Returned u (d, k) \<Rightarrow>
             (case uninitialized_copy_n E (m_data rhs) (m_size this)
                     (m_size rhs - m_size this) d (m_size this) k of
                Undefined \<Rightarrow> Undefined
              | Thrown e (s, d', k') \<Rightarrow>
                  Thrown e (this\<lparr>m_data := d'\<rparr>, rhs, w\<lparr>ops := k'\<rparr>)
              | Returned u' (s, d', k') \<Rightarrow>
                  Returned () (\<lparr>m_data = d', m_size = m_size rhs\<rparr>, rhs, w\<lparr>ops := k'\<rparr>))))"

text \<open>\<^verbatim>\<open>operator=(Vector&&)\<close> for \<^verbatim>\<open>this != &rhs\<close>.\<close>

definition move_assign :: "'a Vector \<Rightarrow> 'a Vector \<Rightarrow> 'a Vector \<times> 'a Vector" where
  "move_assign this rhs =
     (case RawMemory_Swap (m_data this) (m_data rhs) of
        (d, rd) \<Rightarrow> (\<lparr>m_data = d, m_size = m_size rhs\<rparr>, \<lparr>m_data = rd, m_size = 0\<rparr>))"

definition Resize ::
  "'a env \<Rightarrow> nat \<Rightarrow> 'a Vector \<Rightarrow> 'a log \<Rightarrow> (unit, 'a Vector \<times> 'a log) outcome" where
  "Resize E new_size v w =
     (if new_size < m_size v then
        (case destroy_n (m_data v) new_size (m_size v - new_size) of
           None \<Rightarrow> Undefined
         | Some d \<Rightarrow> Returned () (\<lparr>m_data = d, m_size = new_size\<rparr>, w))
      else
        (case Reserve E new_size v w of
           Undefined \<Rightarrow> Undefined
         | Thrown e s \<Rightarrow> Thrown e s
         | Returned u (v', w') \<Rightarrow>
             (case uninitialized_value_construct_n E (m_data v') (m_size v')
                     (new_size - m_size v') (ops w') of
                Undefined \<Rightarrow> Undefined
              | Thrown e (d, k) \<Rightarrow> Thrown e (v'\<lparr>m_data := d\<rparr>, w'\<lparr>ops := k\<rparr>)
              | Returned u' (d, k) \<Rightarrow>
                  Returned () (\<lparr>m_data = d, m_size = new_size\<rparr>, w'\<lparr>ops := k\<rparr>))))"

text \<open>\<^verbatim>\<open>PopBack\<close> is \<^verbatim>\<open>noexcept\<close>: \<open>None\<close> is undefined behaviour.\<close>

definition PopBack :: "'a Vector \<Rightarrow> 'a Vector option" where
  "PopBack v =
     (if m_size v = 0 then None
      else
        (case destroy_at (m_data v) (m_size v - 1) of
           None \<Rightarrow> None
         | Some d \<Rightarrow> Some \<lparr>m_data = d, m_size = m_size v - 1\<rparr>))"

text \<open>
  \<^verbatim>\<open>EmplaceBack\<close> returns \<^verbatim>\<open>data_[size_ - 1]\<close>: the model returns that index.
\<close>

definition EmplaceBack ::
  "'a env \<Rightarrow> 'a \<Rightarrow> 'a Vector \<Rightarrow> 'a log \<Rightarrow> (nat, 'a Vector \<times> 'a log) outcome" where
  "EmplaceBack E x v w =
     (if m_size v = Capacity v then
        (case Allocate_live E (if m_size v = 0 then 1 else m_size v * 2) of
           Inl e \<Rightarrow> Thrown e (v, w)
         | Inr new_data \<Rightarrow>
             (case construct_at E new_data (m_size v) x (ops w) of
                Undefined \<Rightarrow> Undefined
              | Thrown e (nd, k) \<Rightarrow> Thrown e (v, RawMemory_dtor nd (w\<lparr>ops := k\<rparr>))
              | Returned u (nd, k) \<Rightarrow>
                  (case (if nothrow_move_constructible E \<or> \<not> copy_constructible E
                         then uninitialized_move_n E (m_data v) 0 (m_size v) nd 0 k
                         else uninitialized_copy_n E (m_data v) 0 (m_size v) nd 0 k) of
                     Undefined \<Rightarrow> Undefined
                   | Thrown e (old, nd', k') \<Rightarrow>
                       (case destroy_n nd' 0 (m_size v) of
                          None \<Rightarrow> Undefined
                        | Some nd'' \<Rightarrow>
                            Thrown e (v\<lparr>m_data := old\<rparr>, RawMemory_dtor nd'' (w\<lparr>ops := k'\<rparr>)))
                   | Returned u' (old, nd', k') \<Rightarrow>
                       (case destroy_n old 0 (m_size v) of
                          None \<Rightarrow> Undefined
                        | Some old' \<Rightarrow>
                            Returned (m_size v)
                              (\<lparr>m_data = nd', m_size = m_size v + 1\<rparr>,
                               RawMemory_dtor old' (w\<lparr>ops := k'\<rparr>))))))
      else
        (case construct_at E (m_data v) (m_size v) x (ops w) of
           Undefined \<Rightarrow> Undefined
         | Thrown e (d, k) \<Rightarrow> Thrown e (v, w\<lparr>ops := k\<rparr>)
         | Returned u (d, k) \<Rightarrow>
             Returned (m_size v) (\<lparr>m_data = d, m_size = m_size v + 1\<rparr>, w\<lparr>ops := k\<rparr>)))"

definition PushBack ::
  "'a env \<Rightarrow> 'a \<Rightarrow> 'a Vector \<Rightarrow> 'a log \<Rightarrow> (unit, 'a Vector \<times> 'a log) outcome" where
  "PushBack E x v w =
     (case EmplaceBack E x v w of
        Undefined \<Rightarrow> Undefined
      | Thrown e s \<Rightarrow> Thrown e s
      | Returned r s \<Rightarrow> Returned () s)"

text \<open>Appending the elements of a list one by one, from the first.\<close>

fun PushBack_all ::
  "'a env \<Rightarrow> 'a list \<Rightarrow> 'a Vector \<Rightarrow> 'a log \<Rightarrow> (unit, 'a Vector \<times> 'a log) outcome" where
  "PushBack_all E [] v w = Returned () (v, w)"
| "PushBack_all E (x # xs) v w =
     (case PushBack E x v w of
        Undefined \<Rightarrow> Undefined
      | Thrown e s \<Rightarrow> Thrown e s
      | Returned u (v', w') \<Rightarrow> PushBack_all E xs v' w')"

text \<open>
  \<^verbatim>\<open>int num_pos = pos - begin()\<close>: the difference of the two pointers, a 64-bit
  \<^verbatim>\<open>ptrdiff_t\<close>, is converted to the 32-bit \<^verbatim>\<open>int\<close>.
\<close>

definition to_int :: "nat \<Rightarrow> int" where
  "to_int d = (int d + 2 ^ 31) mod 2 ^ 32 - 2 ^ 31"

text \<open>
  \<^verbatim>\<open>new (end()) T(std::forward<T>(data_[i]))\<close>: the object at slot \<open>i\<close> is moved into
  a new object at slot \<open>j\<close> of the same block.
\<close>

definition move_construct_at ::
  "'a env \<Rightarrow> 'a RawMemory \<Rightarrow> nat \<Rightarrow> nat \<Rightarrow> nat \<Rightarrow> (unit, 'a RawMemory \<times> nat) outcome" where
  "move_construct_at E st i j k =
     (if i < length st \<and> j < length st then
        (case (st ! i, st ! j) of
           (Some x, None) \<Rightarrow>
             if move_ctor_throws E k then Thrown ElementFailure (st, move_ctor_tick E k)
             else Returned () (st[i := Some (moved_from E x), j := Some x], move_ctor_tick E k)
         | _ \<Rightarrow> Undefined)
      else Undefined)"

text \<open>\<^verbatim>\<open>*p = std::move(t)\<close> for a local object \<open>t\<close> of value \<open>x\<close>.\<close>

definition move_assign_at ::
  "'a env \<Rightarrow> 'a RawMemory \<Rightarrow> nat \<Rightarrow> 'a \<Rightarrow> nat \<Rightarrow> (unit, 'a RawMemory \<times> nat) outcome" where
  "move_assign_at E st i x k =
     (if i < length st \<and> st ! i \<noteq> None then
        if throws E k then Thrown ElementFailure (st, Suc k)
        else Returned () (st[i := Some x], Suc k)
      else Undefined)"

text \<open>
  \<^verbatim>\<open>Emplace(pos, args...)\<close>, with \<open>pos\<close> the distance of the iterator from
  \<^verbatim>\<open>begin()\<close> and \<open>x\<close> the value the arguments denote. The assertion asks for
  \<open>pos \<le> size_\<close>; a negative \<^verbatim>\<open>num_pos\<close> makes every later address fall before the
  block. The iterator returned is \<^verbatim>\<open>begin() + num_pos\<close>: the model returns \<open>num_pos\<close>.
  In the branch that moves, no handler surrounds the two relocations.
\<close>

definition Emplace ::
  "'a env \<Rightarrow> nat \<Rightarrow> 'a \<Rightarrow> 'a Vector \<Rightarrow> 'a log \<Rightarrow> (nat, 'a Vector \<times> 'a log) outcome" where
  "Emplace E pos x v w =
     (if pos \<le> m_size v \<and> 0 \<le> to_int pos then
        (let num_pos = nat (to_int pos) in
         if m_size v = Capacity v then
           (case Allocate_live E (if m_size v = 0 then 1 else m_size v * 2) of
              Inl e \<Rightarrow> Thrown e (v, w)
            | Inr new_data \<Rightarrow>
                (case construct_at E new_data num_pos x (ops w) of
                   Undefined \<Rightarrow> Undefined
                 | Thrown e (nd, k) \<Rightarrow> Thrown e (v, RawMemory_dtor nd (w\<lparr>ops := k\<rparr>))
                 | Returned u (nd, k) \<Rightarrow>
                     (case (if nothrow_move_constructible E \<or> \<not> copy_constructible E then
                              (case uninitialized_move_n E (m_data v) 0 num_pos nd 0 k of
                                 Undefined \<Rightarrow> Undefined
                               | Thrown e s \<Rightarrow> Thrown e s
                               | Returned u1 (old, nd1, k1) \<Rightarrow>
                                   uninitialized_move_n E old num_pos (m_size v - num_pos)
                                     nd1 (num_pos + 1) k1)
                            else
                              (case uninitialized_copy_n E (m_data v) 0 num_pos nd 0 k of
                                 Undefined \<Rightarrow> Undefined
                               | Thrown e (old, nd1, k1) \<Rightarrow>
                                   (case destroy_at nd1 num_pos of
                                      None \<Rightarrow> Undefined
                                    | Some nd2 \<Rightarrow> Thrown e (old, nd2, k1))
                               | Returned u1 (old, nd1, k1) \<Rightarrow>
                                   (case uninitialized_copy_n E old num_pos (m_size v - num_pos)
                                           nd1 (num_pos + 1) k1 of
                                      Undefined \<Rightarrow> Undefined
                                    | Thrown e (old2, nd2, k2) \<Rightarrow>
                                        (case destroy_n nd2 0 num_pos of
                                           None \<Rightarrow> Undefined
                                         | Some nd3 \<Rightarrow> Thrown e (old2, nd3, k2))
                                    | Returned u2 s \<Rightarrow> Returned () s))) of
                        Undefined \<Rightarrow> Undefined
                      | Thrown e (old, nd', k') \<Rightarrow>
                          Thrown e (v\<lparr>m_data := old\<rparr>, RawMemory_dtor nd' (w\<lparr>ops := k'\<rparr>))
                      | Returned u' (old, nd', k') \<Rightarrow>
                          (case destroy_n old 0 (m_size v) of
                             None \<Rightarrow> Undefined
                           | Some old' \<Rightarrow>
                               Returned num_pos
                                 (\<lparr>m_data = nd', m_size = m_size v + 1\<rparr>,
                                  RawMemory_dtor old' (w\<lparr>ops := k'\<rparr>))))))
         else if pos = m_size v then
           (case construct_at E (m_data v) (m_size v) x (ops w) of
              Undefined \<Rightarrow> Undefined
            | Thrown e (d, k) \<Rightarrow> Thrown e (v, w\<lparr>ops := k\<rparr>)
            | Returned u (d, k) \<Rightarrow>
                Returned num_pos (\<lparr>m_data = d, m_size = m_size v + 1\<rparr>, w\<lparr>ops := k\<rparr>))
         else if throws E (ops w) then Thrown ElementFailure (v, w\<lparr>ops := Suc (ops w)\<rparr>)
         else
           (case move_construct_at E (m_data v) 0 (m_size v) (Suc (ops w)) of
              Undefined \<Rightarrow> Undefined
            | Thrown e (d, k) \<Rightarrow> Thrown e (v, w\<lparr>ops := k\<rparr>)
            | Returned u (d, k) \<Rightarrow>
                (case std_move_backward E d (m_size v - 1) (m_size v - 1 - num_pos)
                        (m_size v) k of
                   Undefined \<Rightarrow> Undefined
                 | Thrown e (d1, k1) \<Rightarrow>
                     (case destroy_at d1 (m_size v) of
                        None \<Rightarrow> Undefined
                      | Some d2 \<Rightarrow> Thrown e (v\<lparr>m_data := d2\<rparr>, w\<lparr>ops := k1\<rparr>))
                 | Returned u1 (d1, k1) \<Rightarrow>
                     (case move_assign_at E d1 num_pos x k1 of
                        Undefined \<Rightarrow> Undefined
                      | Thrown e (d2, k2) \<Rightarrow> Thrown e (v\<lparr>m_data := d2\<rparr>, w\<lparr>ops := k2\<rparr>)
                      | Returned u2 (d2, k2) \<Rightarrow>
                          Returned num_pos
                            (\<lparr>m_data = d2, m_size = m_size v + 1\<rparr>, w\<lparr>ops := k2\<rparr>)))))
      else Undefined)"

definition Insert ::
  "'a env \<Rightarrow> nat \<Rightarrow> 'a \<Rightarrow> 'a Vector \<Rightarrow> 'a log \<Rightarrow> (nat, 'a Vector \<times> 'a log) outcome" where
  "Insert E pos x v w = Emplace E pos x v w"

text \<open>
  \<^verbatim>\<open>Erase(pos)\<close>; here \<^verbatim>\<open>num_pos\<close> is \<^verbatim>\<open>auto\<close>, the full \<^verbatim>\<open>ptrdiff_t\<close>. At
  \<open>pos = size_\<close> the range given to \<^verbatim>\<open>std::move\<close> starts after its end.
\<close>

definition Erase ::
  "'a env \<Rightarrow> nat \<Rightarrow> 'a Vector \<Rightarrow> 'a log \<Rightarrow> (nat, 'a Vector \<times> 'a log) outcome" where
  "Erase E pos v w =
     (if pos < m_size v then
        (case std_move E (m_data v) (pos + 1) (m_size v - (pos + 1)) pos (ops w) of
           Undefined \<Rightarrow> Undefined
         | Thrown e (d, k) \<Rightarrow> Thrown e (v\<lparr>m_data := d\<rparr>, w\<lparr>ops := k\<rparr>)
         | Returned u (d, k) \<Rightarrow>
             (case PopBack (v\<lparr>m_data := d\<rparr>) of
                None \<Rightarrow> Undefined
              | Some v' \<Rightarrow> Returned pos (v', w\<lparr>ops := k\<rparr>)))
      else Undefined)"

section \<open>Some element types\<close>

text \<open>
  An element type like \<^verbatim>\<open>int\<close>, 4 bytes wide: moving is copying, nothing throws,
  \<^verbatim>\<open>operator new\<close> never throws.
\<close>

definition int_like :: "nat env" where
  "int_like =
     \<lparr>nothrow_move_constructible = True, copy_constructible = True,
      moved_from = (\<lambda>x. x), value_init = 0,
      throws = (\<lambda>k. False), sizeof_T = 4, alloc_fails = (\<lambda>n. False)\<rparr>"

text \<open>
  A copyable type, 8 bytes wide, whose move constructor may throw, so that relocation
  copies; its operation number \<open>t\<close> throws. A moved-from object holds 0.
\<close>

definition copy_throws_at :: "nat \<Rightarrow> nat env" where
  "copy_throws_at t =
     \<lparr>nothrow_move_constructible = False, copy_constructible = True,
      moved_from = (\<lambda>x. 0), value_init = 0,
      throws = (\<lambda>k. k = t), sizeof_T = 8, alloc_fails = (\<lambda>n. False)\<rparr>"

text \<open>A type, 8 bytes wide, that cannot be copied and whose move constructor may throw.\<close>

definition move_only_throws_at :: "nat \<Rightarrow> nat env" where
  "move_only_throws_at t =
     \<lparr>nothrow_move_constructible = False, copy_constructible = False,
      moved_from = (\<lambda>x. 0), value_init = 0,
      throws = (\<lambda>k. k = t), sizeof_T = 8, alloc_fails = (\<lambda>n. False)\<rparr>"

definition start :: "nat log" where
  "start = \<lparr>ops = 0, leaked = []\<rparr>"

section \<open>The algorithms on blocks of live and raw slots\<close>

lemma vector_inv_shape:
  assumes "vector_inv v"
  shows "m_data v = map Some (elems v) @ replicate (Capacity v - m_size v) None"
    and "length (elems v) = m_size v" and "m_size v \<le> Capacity v"
proof -
  let ?d = "m_data v" and ?n = "m_size v"
  have le: "?n \<le> length ?d" and lv: "list_all (\<lambda>s. s \<noteq> None) (take ?n ?d)"
    and rw: "list_all (\<lambda>s. s = None) (drop ?n ?d)"
    using assms by (simp_all add: vector_inv_def)
  have a: "map Some (map the (take ?n ?d)) = take ?n ?d"
    using lv by (auto simp: list_all_iff intro!: map_idI)
  have b: "drop ?n ?d = replicate (length ?d - ?n) None"
    using rw by (intro replicate_eqI) (auto simp: list_all_iff)
  have "?d = take ?n ?d @ drop ?n ?d" by simp
  then show "m_data v = map Some (elems v) @ replicate (Capacity v - m_size v) None"
    using a b by (simp add: elems_def Capacity_def)
  show "length (elems v) = m_size v" using le by (simp add: elems_def)
  show "m_size v \<le> Capacity v" using le by (simp add: Capacity_def)
qed

lemma vector_inv_intro:
  "vector_inv \<lparr>m_data = map Some xs @ replicate m None, m_size = length xs\<rparr>"
  by (simp add: vector_inv_def list_all_iff)

lemma elems_shape:
  "elems \<lparr>m_data = map Some xs @ st, m_size = length xs\<rparr> = xs"
  by (simp add: elems_def comp_def)

lemma RawMemory_dtor_raw: "RawMemory_dtor (replicate n None) w = w"
  by (simp add: RawMemory_dtor_def)

lemma destroy_n_live:
  "destroy_n (pre @ map Some xs @ post) (length pre) (length xs)
     = Some (pre @ replicate (length xs) None @ post)"
proof (induction xs arbitrary: pre)
  case Nil
  then show ?case by simp
next
  case (Cons x xs)
  have "destroy_at (pre @ map Some (x # xs) @ post) (length pre)
          = Some ((pre @ [None]) @ map Some xs @ post)"
    by (simp add: destroy_at_def)
  moreover have "destroy_n ((pre @ [None]) @ map Some xs @ post) (length (pre @ [None])) (length xs)
          = Some ((pre @ [None]) @ replicate (length xs) None @ post)"
    by (rule Cons.IH)
  ultimately show ?case by (simp add: replicate_app_Cons_same)
qed

lemma uninitialized_copy_loop_ok:
  "\<forall>j<length xs. \<not> throws E (k + j) \<Longrightarrow>
   uninitialized_copy_loop E (sp @ map Some xs @ ss) (length sp) d_first (length dp) (length xs)
       (dp @ replicate (length xs) None @ ds) k
     = Returned () (sp @ map Some xs @ ss, dp @ map Some xs @ ds, k + length xs)"
proof (induction xs arbitrary: sp dp k)
  case Nil
  then show ?case by simp
next
  case (Cons x xs)
  have nt: "\<not> throws E k" using Cons.prems by force
  have rest: "\<forall>j<length xs. \<not> throws E (Suc k + j)" using Cons.prems by force
  have "uninitialized_copy_loop E ((sp @ [Some x]) @ map Some xs @ ss) (length (sp @ [Some x])) d_first
          (length (dp @ [Some x])) (length xs) ((dp @ [Some x]) @ replicate (length xs) None @ ds) (Suc k)
        = Returned () ((sp @ [Some x]) @ map Some xs @ ss, (dp @ [Some x]) @ map Some xs @ ds, Suc k + length xs)"
    by (rule Cons.IH [OF rest])
  then show ?case using nt by (simp add: nth_append)
qed

lemma uninitialized_copy_loop_throw:
  "jt < length xs \<Longrightarrow> \<forall>j<jt. \<not> throws E (k + j) \<Longrightarrow> throws E (k + jt) \<Longrightarrow>
   uninitialized_copy_loop E (sp @ map Some xs @ ss) (length sp) (length dq)
       (length dq + length ys) (length xs)
       (dq @ map Some ys @ replicate (length xs) None @ ds) k
     = Thrown ElementFailure
         (sp @ map Some xs @ ss, dq @ replicate (length ys + length xs) None @ ds, Suc (k + jt))"
proof (induction xs arbitrary: sp ys k jt)
  case Nil
  then show ?case by simp
next
  case (Cons x xs)
  show ?case
  proof (cases jt)
    case 0
    have "destroy_n (dq @ map Some ys @ (replicate (length (x # xs)) None @ ds)) (length dq) (length ys)
            = Some (dq @ replicate (length ys) None @ (replicate (length (x # xs)) None @ ds))"
      by (rule destroy_n_live)
    then show ?thesis using 0 Cons.prems
      by (simp add: nth_append replicate_add replicate_append_same)
  next
    case (Suc j')
    have nt: "\<not> throws E k" using Cons.prems Suc by force
    have a: "j' < length xs" using Cons.prems Suc by simp
    have b: "\<forall>j<j'. \<not> throws E (Suc k + j)" using Cons.prems Suc by force
    have c: "throws E (Suc k + j')" using Cons.prems Suc by simp
    have "uninitialized_copy_loop E ((sp @ [Some x]) @ map Some xs @ ss) (length (sp @ [Some x]))
            (length dq) (length dq + length (ys @ [x])) (length xs)
            (dq @ map Some (ys @ [x]) @ replicate (length xs) None @ ds) (Suc k)
          = Thrown ElementFailure ((sp @ [Some x]) @ map Some xs @ ss,
              dq @ replicate (length (ys @ [x]) + length xs) None @ ds, Suc (Suc k + j'))"
      by (rule Cons.IH [OF a b c])
    then show ?thesis using nt Suc
      by (simp add: nth_append list_update_append)
  qed
qed

lemma uninitialized_move_loop_ok:
  "nothrow_move_constructible E \<or> (\<forall>j<length xs. \<not> throws E (k + j)) \<Longrightarrow>
   uninitialized_move_loop E (sp @ map Some xs @ ss) (length sp) d_first (length dp) (length xs)
       (dp @ replicate (length xs) None @ ds) k
     = Returned ()
         (sp @ map Some (map (moved_from E) xs) @ ss, dp @ map Some xs @ ds,
          if nothrow_move_constructible E then k else k + length xs)"
proof (induction xs arbitrary: sp dp k)
  case Nil
  then show ?case by simp
next
  case (Cons x xs)
  have nt: "\<not> move_ctor_throws E k"
    using Cons.prems by (auto simp: move_ctor_throws_def)
  have rest: "nothrow_move_constructible E \<or> (\<forall>j<length xs. \<not> throws E (move_ctor_tick E k + j))"
    using Cons.prems by (auto simp: move_ctor_tick_def)
  have "uninitialized_move_loop E ((sp @ [Some (moved_from E x)]) @ map Some xs @ ss)
          (length (sp @ [Some (moved_from E x)])) d_first
          (length (dp @ [Some x])) (length xs) ((dp @ [Some x]) @ replicate (length xs) None @ ds)
          (move_ctor_tick E k)
        = Returned () ((sp @ [Some (moved_from E x)]) @ map Some (map (moved_from E) xs) @ ss,
            (dp @ [Some x]) @ map Some xs @ ds,
            if nothrow_move_constructible E then move_ctor_tick E k
            else move_ctor_tick E k + length xs)"
    by (rule Cons.IH [OF rest])
  then show ?case using nt
    by (simp add: nth_append list_update_append move_ctor_tick_def)
qed

lemma uninitialized_move_loop_throw:
  "\<not> nothrow_move_constructible E \<Longrightarrow> jt < length xs \<Longrightarrow>
   \<forall>j<jt. \<not> throws E (k + j) \<Longrightarrow> throws E (k + jt) \<Longrightarrow>
   uninitialized_move_loop E (sp @ map Some xs @ ss) (length sp) (length dq)
       (length dq + length ys) (length xs)
       (dq @ map Some ys @ replicate (length xs) None @ ds) k
     = Thrown ElementFailure
         (sp @ map Some (map (moved_from E) (take jt xs)) @ map Some (drop jt xs) @ ss,
          dq @ replicate (length ys + length xs) None @ ds, Suc (k + jt))"
proof (induction xs arbitrary: sp ys k jt)
  case Nil
  then show ?case by simp
next
  case (Cons x xs)
  show ?case
  proof (cases jt)
    case 0
    have "destroy_n (dq @ map Some ys @ (replicate (length (x # xs)) None @ ds)) (length dq) (length ys)
            = Some (dq @ replicate (length ys) None @ (replicate (length (x # xs)) None @ ds))"
      by (rule destroy_n_live)
    then show ?thesis using 0 Cons.prems
      by (simp add: nth_append replicate_add replicate_append_same move_ctor_throws_def
          move_ctor_tick_def)
  next
    case (Suc j')
    have nt: "\<not> throws E k" using Cons.prems Suc by force
    have a: "j' < length xs" using Cons.prems Suc by simp
    have b: "\<forall>j<j'. \<not> throws E (Suc k + j)" using Cons.prems Suc by force
    have c: "throws E (Suc k + j')" using Cons.prems Suc by simp
    have "uninitialized_move_loop E ((sp @ [Some (moved_from E x)]) @ map Some xs @ ss)
            (length (sp @ [Some (moved_from E x)]))
            (length dq) (length dq + length (ys @ [x])) (length xs)
            (dq @ map Some (ys @ [x]) @ replicate (length xs) None @ ds) (Suc k)
          = Thrown ElementFailure
              ((sp @ [Some (moved_from E x)]) @ map Some (map (moved_from E) (take j' xs))
                 @ map Some (drop j' xs) @ ss,
               dq @ replicate (length (ys @ [x]) + length xs) None @ ds, Suc (Suc k + j'))"
      by (rule Cons.IH [OF Cons.prems(1) a b c])
    then show ?thesis using nt Suc Cons.prems(1)
      by (simp add: nth_append list_update_append move_ctor_throws_def move_ctor_tick_def)
  qed
qed

lemma raw_split:
  "n \<le> c \<Longrightarrow> replicate c None = replicate n None @ replicate (c - n) None"
  by (simp flip: replicate_add)

lemma copy_into_fresh:
  assumes "length xs \<le> c" and "\<forall>j<length xs. \<not> throws E (k + j)"
  shows "uninitialized_copy_n E (map Some xs @ ss) 0 (length xs) (replicate c None) 0 k
           = Returned () (map Some xs @ ss, map Some xs @ replicate (c - length xs) None,
               k + length xs)"
  using uninitialized_copy_loop_ok [where sp = "[]" and dp = "[]" and d_first = 0
      and ds = "replicate (c - length xs) None" and ss = ss, OF assms(2)]
  by (simp add: uninitialized_copy_n_def raw_split [OF assms(1)])

lemma copy_into_fresh_throw:
  assumes "length xs \<le> c" and "jt < length xs" and "\<forall>j<jt. \<not> throws E (k + j)"
    and "throws E (k + jt)"
  shows "uninitialized_copy_n E (map Some xs @ ss) 0 (length xs) (replicate c None) 0 k
           = Thrown ElementFailure (map Some xs @ ss, replicate c None, Suc (k + jt))"
  using uninitialized_copy_loop_throw [where sp = "[]" and dq = "[]" and ys = "[]"
      and ds = "replicate (c - length xs) None" and ss = ss, OF assms(2-4)]
  by (simp add: uninitialized_copy_n_def raw_split [OF assms(1)])

lemma move_into_fresh:
  assumes "length xs \<le> c"
    and "nothrow_move_constructible E \<or> (\<forall>j<length xs. \<not> throws E (k + j))"
  shows "uninitialized_move_n E (map Some xs @ ss) 0 (length xs) (replicate c None) 0 k
           = Returned ()
               (map Some (map (moved_from E) xs) @ ss,
                map Some xs @ replicate (c - length xs) None,
                if nothrow_move_constructible E then k else k + length xs)"
  using uninitialized_move_loop_ok [where sp = "[]" and dp = "[]" and d_first = 0
      and ds = "replicate (c - length xs) None" and ss = ss, OF assms(2)]
  by (simp add: uninitialized_move_n_def raw_split [OF assms(1)])

lemma move_into_fresh_throw:
  assumes "length xs \<le> c" and "\<not> nothrow_move_constructible E" and "jt < length xs"
    and "\<forall>j<jt. \<not> throws E (k + j)" and "throws E (k + jt)"
  shows "uninitialized_move_n E (map Some xs @ ss) 0 (length xs) (replicate c None) 0 k
           = Thrown ElementFailure
               (map Some (map (moved_from E) (take jt xs)) @ map Some (drop jt xs) @ ss,
                replicate c None, Suc (k + jt))"
  using uninitialized_move_loop_throw [where sp = "[]" and dq = "[]" and ys = "[]"
      and ds = "replicate (c - length xs) None" and ss = ss, OF assms(2-5)]
  by (simp add: uninitialized_move_n_def raw_split [OF assms(1)])

lemma destroy_n_prefix:
  "destroy_n (map Some xs @ post) 0 (length xs) = Some (replicate (length xs) None @ post)"
  using destroy_n_live [where pre = "[]"] by simp

lemma Allocate_fits:
  "fits_size_t E n \<Longrightarrow>
     Allocate E n
       = (if n \<noteq> 0 \<and> alloc_fails E n then Inl AllocationError else Inr (replicate n None))"
proof -
  assume f: "fits_size_t E n"
  then have "int n * int (sizeof_T E) mod 2 ^ 64 = int (n * sizeof_T E)"
    by (simp add: fits_size_t_def)
  then have "nat (int n * int (sizeof_T E) mod 2 ^ 64) = n * sizeof_T E"
    by (simp only: nat_int)
  then have "nat (int n * int (sizeof_T E) mod 2 ^ 64) div sizeof_T E = n"
    using f by (simp add: fits_size_t_def)
  then show ?thesis by (simp add: Allocate_def)
qed

lemma Allocate_live_fits: "fits_size_t E n \<Longrightarrow> Allocate_live E n = Allocate E n"
  by (simp add: Allocate_fits Allocate_live_def)

lemma Reserve_noop: "c \<le> Capacity v \<Longrightarrow> Reserve E c v w = Returned () (v, w)"
  by (simp add: Reserve_def)

lemma Reserve_alloc_fails:
  "Capacity v < c \<Longrightarrow> alloc_fails E c \<Longrightarrow> Reserve E c v w = Thrown AllocationError (v, w)"
  by (auto simp: Reserve_def Allocate_def)

lemma Reserve_ok_shape:
  assumes "length xs + m < c" and "\<not> alloc_fails E c"
    and "nothrow_move_constructible E \<or> (\<forall>j<length xs. \<not> throws E (ops w + j))"
    and fits: "fits_size_t E c"
  shows "Reserve E c \<lparr>m_data = map Some xs @ replicate m None, m_size = length xs\<rparr> w
           = Returned ()
               (\<lparr>m_data = map Some xs @ replicate (c - length xs) None, m_size = length xs\<rparr>,
                w\<lparr>ops := if nothrow_move_constructible E then ops w else ops w + length xs\<rparr>)"
proof -
  have le: "length xs \<le> c" using assms(1) by simp
  show ?thesis
  proof (cases "nothrow_move_constructible E \<or> \<not> copy_constructible E")
    case True
    then show ?thesis
      using assms(1,2) move_into_fresh [OF le assms(3), where ss = "replicate m None"]
        destroy_n_prefix [where xs = "map (moved_from E) xs" and post = "replicate m None"]
      by (simp add: Reserve_def Allocate_fits [OF fits] Capacity_def RawMemory_dtor_def)
  next
    case False
    then have "\<forall>j<length xs. \<not> throws E (ops w + j)" using assms(3) by simp
    then show ?thesis
      using False assms(1,2) copy_into_fresh [OF le, where ss = "replicate m None" and E = E and k = "ops w"]
        destroy_n_prefix [where xs = xs and post = "replicate m None"]
      by (simp add: Reserve_def Allocate_fits [OF fits] Capacity_def RawMemory_dtor_def)
  qed
qed

lemma Reserve_copy_throw_shape:
  assumes "length xs + m < c" and "\<not> alloc_fails E c"
    and "\<not> nothrow_move_constructible E" and "copy_constructible E"
    and "jt < length xs" and "\<forall>j<jt. \<not> throws E (ops w + j)" and "throws E (ops w + jt)"
    and fits: "fits_size_t E c"
  shows "Reserve E c \<lparr>m_data = map Some xs @ replicate m None, m_size = length xs\<rparr> w
           = Thrown ElementFailure
               (\<lparr>m_data = map Some xs @ replicate m None, m_size = length xs\<rparr>,
                w\<lparr>ops := Suc (ops w + jt)\<rparr>)"
proof -
  have le: "length xs \<le> c" using assms(1) by simp
  show ?thesis
    using assms(1-4) copy_into_fresh_throw [OF le assms(5-7), where ss = "replicate m None"]
    by (simp add: Reserve_def Allocate_fits [OF fits] Capacity_def RawMemory_dtor_def)
qed

lemma Reserve_move_throw_shape:
  assumes "length xs + m < c" and "\<not> alloc_fails E c"
    and "\<not> nothrow_move_constructible E" and "\<not> copy_constructible E"
    and "jt < length xs" and "\<forall>j<jt. \<not> throws E (ops w + j)" and "throws E (ops w + jt)"
    and fits: "fits_size_t E c"
  shows "Reserve E c \<lparr>m_data = map Some xs @ replicate m None, m_size = length xs\<rparr> w
           = Thrown ElementFailure
               (\<lparr>m_data = map Some (map (moved_from E) (take jt xs)) @ map Some (drop jt xs)
                    @ replicate m None, m_size = length xs\<rparr>,
                w\<lparr>ops := Suc (ops w + jt)\<rparr>)"
proof -
  have le: "length xs \<le> c" using assms(1) by simp
  show ?thesis
    using assms(1-4) move_into_fresh_throw [OF le assms(3) assms(5-7), where ss = "replicate m None"]
    by (simp add: Reserve_def Allocate_fits [OF fits] Capacity_def RawMemory_dtor_def)
qed

lemma first_throw:
  assumes "\<exists>j<n. throws E (k + j)"
  obtains jt where "jt < n" and "\<forall>j<jt. \<not> throws E (k + j)" and "throws E (k + jt)"
proof -
  from assms have "\<exists>j. j < n \<and> throws E (k + j)" by blast
  then obtain jt where a: "jt < n \<and> throws E (k + jt)"
    and b: "\<forall>m<jt. \<not> (m < n \<and> throws E (k + m))"
    using exists_least_iff [of "\<lambda>j. j < n \<and> throws E (k + j)"] by blast
  from a b have "\<forall>j<jt. \<not> throws E (k + j)" by auto
  with a show thesis using that by blast
qed

lemma Reserve_Returned_shape:
  assumes "length xs + m < c"
    and "Reserve E c \<lparr>m_data = map Some xs @ replicate m None, m_size = length xs\<rparr> w
           = Returned u (v', w')"
    and fits: "fits_size_t E c"
  shows "v' = \<lparr>m_data = map Some xs @ replicate (c - length xs) None, m_size = length xs\<rparr>"
    and "leaked w' = leaked w"
    and "\<not> alloc_fails E c"
    and "nothrow_move_constructible E \<or> (\<forall>j<length xs. \<not> throws E (ops w + j))"
proof -
  let ?v = "\<lparr>m_data = map Some xs @ replicate m None, m_size = length xs\<rparr>"
  have cap: "Capacity ?v < c" using assms(1) by (simp add: Capacity_def)
  show na: "\<not> alloc_fails E c"
    using Reserve_alloc_fails [OF cap, of E w] assms(2) by auto
  show nt: "nothrow_move_constructible E \<or> (\<forall>j<length xs. \<not> throws E (ops w + j))"
  proof (rule ccontr)
    assume "\<not> ?thesis"
    then have nn: "\<not> nothrow_move_constructible E" and ex: "\<exists>j<length xs. throws E (ops w + j)"
      by auto
    from ex obtain jt where jt: "jt < length xs" "\<forall>j<jt. \<not> throws E (ops w + j)"
      "throws E (ops w + jt)" by (rule first_throw)
    show False
    proof (cases "copy_constructible E")
      case True
      show False using Reserve_copy_throw_shape [OF assms(1) na nn True jt fits] assms(2) by simp
    next
      case False
      show False using Reserve_move_throw_shape [OF assms(1) na nn False jt fits] assms(2) by simp
    qed
  qed
  show "v' = \<lparr>m_data = map Some xs @ replicate (c - length xs) None, m_size = length xs\<rparr>"
    using Reserve_ok_shape [OF assms(1) na nt fits] assms(2) by simp
  show "leaked w' = leaked w"
    using Reserve_ok_shape [OF assms(1) na nt fits] assms(2) by auto
qed

section \<open>Reserve\<close>

text \<open>
  C5. The code does not do what the claim says where the byte count
  \<^verbatim>\<open>c * sizeof(T)\<close> does not fit \<^verbatim>\<open>size_t\<close>. For a 4-byte element type and the vector
  \<open>[1, 2, 3]\<close>, \<^verbatim>\<open>Reserve(2 ^ 62 + 1)\<close> asks \<^verbatim>\<open>operator new\<close> for
  \<open>(2 ^ 62 + 1) * 4 mod 2 ^ 64 = 4\<close> bytes. The allocation succeeds, the block has one
  slot, and the relocation of the second element writes past its end: the call neither
  returns a vector of capacity \<open>2 ^ 62 + 1\<close> holding \<open>[1, 2, 3]\<close> nor reports an error.
\<close>

theorem Reserve_byte_count_wraps:
  "vector_inv \<lparr>m_data = [Some (1::nat), Some 2, Some 3], m_size = 3\<rparr>
   \<and> sizeof_T int_like = 4
   \<and> Allocate int_like (2 ^ 62 + 1) = Inr [None]
   \<and> Reserve int_like (2 ^ 62 + 1) \<lparr>m_data = [Some 1, Some 2, Some 3], m_size = 3\<rparr> start
       = Undefined"
proof -
  have a: "Allocate int_like (2 ^ 62 + 1) = Inr [None]"
    by (simp add: Allocate_def int_like_def)
  have nt: "nothrow_move_constructible int_like" by (simp add: int_like_def)
  have mv: "uninitialized_move_n int_like [Some 1, Some 2, Some 3] 0 3 [None] 0 0 = Undefined"
    by code_simp
  have r: "Reserve int_like (2 ^ 62 + 1) \<lparr>m_data = [Some 1, Some 2, Some 3], m_size = 3\<rparr> start
       = Undefined"
    using a mv by (simp add: Reserve_def Capacity_def nt start_def)
  have i: "vector_inv \<lparr>m_data = [Some (1::nat), Some 2, Some 3], m_size = 3\<rparr>"
    by (simp add: vector_inv_def)
  have s: "sizeof_T int_like = 4" by (simp add: int_like_def)
  show ?thesis by (intro conjI) (rule i s a r)+
qed

text \<open>
  Away from that overflow \<^verbatim>\<open>Reserve\<close> behaves as intended. \<^verbatim>\<open>Reserve(c)\<close> with \<open>c\<close> at
  most the capacity changes nothing: the same vector comes back, and no element
  operation is run. With \<open>c\<close> above the capacity and the byte count \<^verbatim>\<open>c * sizeof(T)\<close>
  within \<^verbatim>\<open>size_t\<close>, whenever the call returns the capacity is exactly \<open>c\<close>, and the
  size and the values of the elements, in order, are as before; and the call does
  return when the allocation succeeds and the relocation cannot throw, because the move
  constructor cannot or because none of the element operations that are run does.
\<close>

theorem Reserve_capacity_and_contents:
  assumes "vector_inv v"
  shows "(c \<le> Capacity v \<longrightarrow> Reserve E c v w = Returned () (v, w))
       \<and> (Capacity v < c \<and> fits_size_t E c \<longrightarrow>
            (\<forall>u v' w'. Reserve E c v w = Returned u (v', w') \<longrightarrow>
               Capacity v' = c \<and> Size v' = Size v \<and> elems v' = elems v \<and> vector_inv v')
          \<and> (\<not> alloc_fails E c
              \<and> (nothrow_move_constructible E \<or> (\<forall>j<Size v. \<not> throws E (ops w + j))) \<longrightarrow>
               (\<exists>v' w'. Reserve E c v w = Returned () (v', w'))))"
proof -
  let ?xs = "elems v" and ?m = "Capacity v - m_size v"
  have v: "v = \<lparr>m_data = map Some ?xs @ replicate ?m None, m_size = length ?xs\<rparr>"
    using vector_inv_shape(1,2) [OF assms] by simp
  have n: "length ?xs = m_size v" and le: "m_size v \<le> Capacity v"
    using vector_inv_shape(2,3) [OF assms] by simp_all
  have noop: "c \<le> Capacity v \<longrightarrow> Reserve E c v w = Returned () (v, w)"
    by (simp add: Reserve_noop)
  have grow: "Capacity v' = c \<and> Size v' = Size v \<and> elems v' = elems v \<and> vector_inv v'"
    if lt: "Capacity v < c" and fits: "fits_size_t E c"
      and r: "Reserve E c v w = Returned u (v', w')" for u v' w'
  proof -
    have lt': "length ?xs + ?m < c" using lt n le by simp
    have "v' = \<lparr>m_data = map Some ?xs @ replicate (c - length ?xs) None, m_size = length ?xs\<rparr>"
      using Reserve_Returned_shape(1) [OF lt' _ fits, of w u v' w'] r v by simp
    then have v': "v' = \<lparr>m_data = map Some ?xs @ replicate (c - length ?xs) None, m_size = length ?xs\<rparr>" .
    have "Capacity v' = c" using lt' by (simp add: v' Capacity_def)
    moreover have "Size v' = Size v" using n by (simp add: v' Size_def)
    moreover have "elems v' = elems v" by (simp only: v' elems_shape)
    moreover have "vector_inv v'" by (simp only: v' vector_inv_intro)
    ultimately show ?thesis by simp
  qed
  have ok: "\<exists>v' w'. Reserve E c v w = Returned () (v', w')"
    if lt: "Capacity v < c" and fits: "fits_size_t E c" and na: "\<not> alloc_fails E c"
      and nt: "nothrow_move_constructible E \<or> (\<forall>j<Size v. \<not> throws E (ops w + j))"
  proof -
    have lt': "length ?xs + ?m < c" using lt n le by simp
    have nt': "nothrow_move_constructible E \<or> (\<forall>j<length ?xs. \<not> throws E (ops w + j))"
      using nt n by (simp add: Size_def)
    show ?thesis using Reserve_ok_shape [OF lt' na nt' fits] v by metis
  qed
  show ?thesis using noop grow ok by blast
qed

theorem Reserve_capacity_and_contents_witness:
  "vector_inv \<lparr>m_data = [Some (1::nat), Some 2], m_size = 2\<rparr>
   \<and> Reserve int_like 1 \<lparr>m_data = [Some 1, Some 2], m_size = 2\<rparr> start
       = Returned () (\<lparr>m_data = [Some 1, Some 2], m_size = 2\<rparr>, start)
   \<and> fits_size_t int_like 5
   \<and> (\<exists>v' w'. Reserve int_like 5 \<lparr>m_data = [Some 1, Some 2], m_size = 2\<rparr> start
                  = Returned () (v', w')
               \<and> Capacity v' = 5 \<and> Size v' = 2 \<and> elems v' = [1, 2])
   \<and> fits_size_t (copy_throws_at 7) 5
   \<and> (\<exists>v' w'. Reserve (copy_throws_at 7) 5 \<lparr>m_data = [Some 1, Some 2], m_size = 2\<rparr> start
                  = Returned () (v', w')
               \<and> Capacity v' = 5 \<and> Size v' = 2 \<and> elems v' = [1, 2])"
proof -
  let ?v = "\<lparr>m_data = [Some (1::nat), Some 2], m_size = 2\<rparr>"
  have i: "vector_inv ?v" by (simp add: vector_inv_def)
  have c: "Capacity ?v = 2" "Size ?v = 2" "elems ?v = [1, 2]"
    by (simp_all add: Capacity_def Size_def elems_def)
  have e: "\<not> alloc_fails int_like 5" "nothrow_move_constructible int_like"
    "fits_size_t int_like 5"
    by (simp_all add: int_like_def fits_size_t_def)
  have g: "\<not> alloc_fails (copy_throws_at 7) 5"
    "\<forall>j<Size ?v. \<not> throws (copy_throws_at 7) (ops start + j)"
    "fits_size_t (copy_throws_at 7) 5"
    by (simp_all add: copy_throws_at_def fits_size_t_def start_def Size_def)
  note t1 = Reserve_capacity_and_contents [OF i, of 1 int_like start]
  note t5 = Reserve_capacity_and_contents [OF i, of 5 int_like start]
  note t7 = Reserve_capacity_and_contents [OF i, of 5 "copy_throws_at 7" start]
  from t1 c have a: "Reserve int_like 1 ?v start = Returned () (?v, start)" by simp
  from t5 c e obtain v' w' where r: "Reserve int_like 5 ?v start = Returned () (v', w')"
    by auto
  with t5 c e have "Capacity v' = 5 \<and> Size v' = 2 \<and> elems v' = [1, 2]" by auto
  with r have b: "\<exists>v' w'. Reserve int_like 5 ?v start = Returned () (v', w')
               \<and> Capacity v' = 5 \<and> Size v' = 2 \<and> elems v' = [1, 2]" by blast
  from t7 c g obtain v'' w'' where
    r': "Reserve (copy_throws_at 7) 5 ?v start = Returned () (v'', w'')"
    by auto
  with t7 c g have "Capacity v'' = 5 \<and> Size v'' = 2 \<and> elems v'' = [1, 2]" by auto
  with r' have d: "\<exists>v' w'. Reserve (copy_throws_at 7) 5 ?v start = Returned () (v', w')
               \<and> Capacity v' = 5 \<and> Size v' = 2 \<and> elems v' = [1, 2]" by blast
  from i a e(3) b g(3) d show ?thesis by blast
qed

lemma Reserve_Thrown_copy_shape:
  assumes "\<not> nothrow_move_constructible E" and "copy_constructible E"
    and "Reserve E c \<lparr>m_data = map Some xs @ replicate m None, m_size = length xs\<rparr> w
           = Thrown e (v', w')"
    and fits: "fits_size_t E c"
  shows "v' = \<lparr>m_data = map Some xs @ replicate m None, m_size = length xs\<rparr>"
    and "leaked w' = leaked w"
proof -
  let ?v = "\<lparr>m_data = map Some xs @ replicate m None, m_size = length xs\<rparr>"
  have "v' = ?v \<and> leaked w' = leaked w"
  proof (cases "c \<le> Capacity ?v")
    case True
    then show ?thesis using assms(3) by (simp add: Reserve_noop)
  next
    case False
    then have lt: "Capacity ?v < c" and lt': "length xs + m < c" by (simp_all add: Capacity_def)
    show ?thesis
    proof (cases "alloc_fails E c")
      case True
      then show ?thesis using Reserve_alloc_fails [OF lt True, of w] assms(3) by simp
    next
      case na: False
      show ?thesis
      proof (cases "\<exists>j<length xs. throws E (ops w + j)")
        case True
        then obtain jt where jt: "jt < length xs" "\<forall>j<jt. \<not> throws E (ops w + j)"
          "throws E (ops w + jt)" by (rule first_throw)
        show ?thesis
          using Reserve_copy_throw_shape [OF lt' na assms(1,2) jt fits] assms(3) by auto
      next
        case False
        then have "nothrow_move_constructible E \<or> (\<forall>j<length xs. \<not> throws E (ops w + j))"
          by simp
        from Reserve_ok_shape [OF lt' na this fits] assms(3) show ?thesis by simp
      qed
    qed
  qed
  then show "v' = ?v" and "leaked w' = leaked w" by simp_all
qed

lemma Reserve_Thrown_nothrow_shape:
  assumes "nothrow_move_constructible E"
    and "Reserve E c \<lparr>m_data = map Some xs @ replicate m None, m_size = length xs\<rparr> w
           = Thrown e s"
    and fits: "fits_size_t E c"
  shows "e = AllocationError
       \<and> s = (\<lparr>m_data = map Some xs @ replicate m None, m_size = length xs\<rparr>, w)"
proof -
  let ?v = "\<lparr>m_data = map Some xs @ replicate m None, m_size = length xs\<rparr>"
  show ?thesis
  proof (cases "c \<le> Capacity ?v")
    case True
    then show ?thesis using assms(2) by (simp add: Reserve_noop)
  next
    case False
    then have lt: "Capacity ?v < c" and lt': "length xs + m < c" by (simp_all add: Capacity_def)
    show ?thesis
    proof (cases "alloc_fails E c")
      case True
      then show ?thesis using Reserve_alloc_fails [OF lt True, of w] assms(2) by simp
    next
      case na: False
      have "nothrow_move_constructible E \<or> (\<forall>j<length xs. \<not> throws E (ops w + j))"
        using assms(1) by simp
      from Reserve_ok_shape [OF lt' na this fits] assms(2) show ?thesis by simp
    qed
  qed
qed

lemma Reserve_Thrown_move_only_shape:
  assumes "\<not> nothrow_move_constructible E" and "\<not> copy_constructible E"
    and "Reserve E c \<lparr>m_data = map Some xs @ replicate m None, m_size = length xs\<rparr> w
           = Thrown e (v', w')"
    and fits: "fits_size_t E c"
  shows "\<exists>jt\<le>length xs.
           v' = \<lparr>m_data = map Some (map (moved_from E) (take jt xs) @ drop jt xs)
                          @ replicate m None,
                 m_size = length xs\<rparr>"
    and "leaked w' = leaked w"
proof -
  let ?v = "\<lparr>m_data = map Some xs @ replicate m None, m_size = length xs\<rparr>"
  let ?P = "\<lambda>jt. v' = \<lparr>m_data = map Some (map (moved_from E) (take jt xs) @ drop jt xs)
                          @ replicate m None, m_size = length xs\<rparr>"
  have "(\<exists>jt\<le>length xs. ?P jt) \<and> leaked w' = leaked w"
  proof (cases "c \<le> Capacity ?v")
    case True
    then show ?thesis using assms(3) by (simp add: Reserve_noop)
  next
    case False
    then have lt: "Capacity ?v < c" and lt': "length xs + m < c" by (simp_all add: Capacity_def)
    show ?thesis
    proof (cases "alloc_fails E c")
      case True
      from Reserve_alloc_fails [OF lt True, of w] assms(3) have "?P 0" "leaked w' = leaked w"
        by simp_all
      then show ?thesis by blast
    next
      case na: False
      show ?thesis
      proof (cases "\<exists>j<length xs. throws E (ops w + j)")
        case True
        then obtain jt where jt: "jt < length xs" "\<forall>j<jt. \<not> throws E (ops w + j)"
          "throws E (ops w + jt)" by (rule first_throw)
        from Reserve_move_throw_shape [OF lt' na assms(1,2) jt fits] assms(3)
        have "?P jt" "leaked w' = leaked w" by simp_all
        with jt(1) show ?thesis by (metis less_imp_le)
      next
        case False
        then have "nothrow_move_constructible E \<or> (\<forall>j<length xs. \<not> throws E (ops w + j))"
          by simp
        from Reserve_ok_shape [OF lt' na this fits] assms(3) show ?thesis by simp
      qed
    qed
  qed
  then show "\<exists>jt\<le>length xs. ?P jt" and "leaked w' = leaked w" by simp_all
qed

text \<open>
  C6, as stated, fails in its last part: the branch that moves is also taken for a type
  that cannot be copied, whatever its move constructor may do. For such a type, with a
  move constructor that throws on the second element, \<^verbatim>\<open>Reserve(5)\<close> on \<open>[1, 2]\<close>
  throws and leaves the first element moved-from. Its first part meets the overflow of
  C5 where the byte count of the new capacity does not fit \<^verbatim>\<open>size_t\<close>: for an 8-byte
  copyable type whose third copy would throw, \<^verbatim>\<open>Reserve(2 ^ 61 + 1)\<close> on \<open>[1, 2, 3]\<close>
  is given a block of 8 bytes, one slot, and the second copy writes past its end before
  any exception is raised.
\<close>

theorem Reserve_relocation_guarantee_fails:
  "\<not> copy_constructible (move_only_throws_at 1)
   \<and> Reserve (move_only_throws_at 1) 5 \<lparr>m_data = [Some 1, Some 2], m_size = 2\<rparr> start
       = Thrown ElementFailure
           (\<lparr>m_data = [Some 0, Some 2], m_size = 2\<rparr>, \<lparr>ops = 2, leaked = []\<rparr>)
   \<and> \<not> nothrow_move_constructible (copy_throws_at 2) \<and> copy_constructible (copy_throws_at 2)
   \<and> sizeof_T (copy_throws_at 2) = 8
   \<and> Allocate (copy_throws_at 2) (2 ^ 61 + 1) = Inr [None]
   \<and> Reserve (copy_throws_at 2) (2 ^ 61 + 1)
         \<lparr>m_data = [Some 1, Some 2, Some 3], m_size = 3\<rparr> start
       = Undefined"
proof -
  have m: "Reserve (move_only_throws_at 1) 5 \<lparr>m_data = [Some 1, Some 2], m_size = 2\<rparr> start
       = Thrown ElementFailure
           (\<lparr>m_data = [Some 0, Some 2], m_size = 2\<rparr>, \<lparr>ops = 2, leaked = []\<rparr>)"
    by code_simp
  have a: "Allocate (copy_throws_at 2) (2 ^ 61 + 1) = Inr [None]"
    by (simp add: Allocate_def copy_throws_at_def)
  have t: "\<not> nothrow_move_constructible (copy_throws_at 2)" "copy_constructible (copy_throws_at 2)"
    "sizeof_T (copy_throws_at 2) = 8"
    by (simp_all add: copy_throws_at_def)
  have cp: "uninitialized_copy_n (copy_throws_at 2) [Some 1, Some 2, Some 3] 0 3 [None] 0 0
              = Undefined"
    by code_simp
  have r: "Reserve (copy_throws_at 2) (2 ^ 61 + 1)
         \<lparr>m_data = [Some 1, Some 2, Some 3], m_size = 3\<rparr> start
       = Undefined"
    using a cp by (simp add: Reserve_def Capacity_def t start_def)
  have nc: "\<not> copy_constructible (move_only_throws_at 1)"
    by (simp add: move_only_throws_at_def)
  show ?thesis by (intro conjI) (rule nc m t a r)+
qed

text \<open>
  C6, amended; it speaks of a new capacity whose byte count fits \<^verbatim>\<open>size_t\<close>. When
  \<^verbatim>\<open>Reserve\<close> copies (the move constructor may throw and the type can be copied), any
  exception leaves the vector exactly as it was, size, capacity and elements, and
  nothing of the new block is leaked; and when the allocation succeeds and one of the
  copies throws, the call does throw. When the move constructor cannot throw,
  relocation cannot fail: the call throws only when the allocation fails, before
  anything is touched, and returns otherwise. When the type cannot be copied and its
  move constructor may throw, the elements are moved all the same: when the allocation
  succeeds and one of the moves throws, the call throws, and an exception leaves the
  size and the capacity as they were, nothing leaked, and the first \<open>jt\<close> elements,
  those already moved, in their moved-from state.
\<close>

theorem Reserve_strong_guarantee:
  assumes "vector_inv v" and "fits_size_t E c"
  shows "(\<not> nothrow_move_constructible E \<and> copy_constructible E \<longrightarrow>
            (\<forall>e v' w'. Reserve E c v w = Thrown e (v', w') \<longrightarrow> v' = v \<and> leaked w' = leaked w)
          \<and> (Capacity v < c \<and> \<not> alloc_fails E c \<and> (\<exists>j<Size v. throws E (ops w + j)) \<longrightarrow>
               (\<exists>w'. Reserve E c v w = Thrown ElementFailure (v, w'))))
       \<and> (nothrow_move_constructible E \<longrightarrow>
            (\<forall>e s. Reserve E c v w = Thrown e s \<longrightarrow> e = AllocationError \<and> s = (v, w))
          \<and> (Capacity v < c \<and> alloc_fails E c \<longrightarrow>
               Reserve E c v w = Thrown AllocationError (v, w))
          \<and> (c \<le> Capacity v \<or> \<not> alloc_fails E c \<longrightarrow>
               (\<exists>v' w'. Reserve E c v w = Returned () (v', w'))))
       \<and> (\<not> nothrow_move_constructible E \<and> \<not> copy_constructible E \<longrightarrow>
            (\<forall>e v' w'. Reserve E c v w = Thrown e (v', w') \<longrightarrow>
               Size v' = Size v \<and> Capacity v' = Capacity v \<and> vector_inv v'
             \<and> leaked w' = leaked w
             \<and> (\<exists>jt\<le>Size v. elems v'
                    = map (moved_from E) (take jt (elems v)) @ drop jt (elems v)))
          \<and> (Capacity v < c \<and> \<not> alloc_fails E c \<and> (\<exists>j<Size v. throws E (ops w + j)) \<longrightarrow>
               (\<exists>v' w'. Reserve E c v w = Thrown ElementFailure (v', w'))))"
proof -
  note fits = assms(2)
  let ?xs = "elems v" and ?m = "Capacity v - m_size v"
  have v: "v = \<lparr>m_data = map Some ?xs @ replicate ?m None, m_size = length ?xs\<rparr>"
    using vector_inv_shape(1,2) [OF assms(1)] by simp
  have n: "length ?xs = m_size v" and le: "m_size v \<le> Capacity v"
    using vector_inv_shape(2,3) [OF assms(1)] by simp_all
  have strong: "v' = v \<and> leaked w' = leaked w"
    if "\<not> nothrow_move_constructible E" and "copy_constructible E"
      and "Reserve E c v w = Thrown e (v', w')" for e v' w'
    using Reserve_Thrown_copy_shape [OF that(1,2) _ fits, of ?xs ?m w e v' w'] that(3) v by simp
  have propagates: "\<exists>w'. Reserve E c v w = Thrown ElementFailure (v, w')"
    if nn: "\<not> nothrow_move_constructible E" and cc: "copy_constructible E"
      and lt: "Capacity v < c" and na: "\<not> alloc_fails E c"
      and ex: "\<exists>j<Size v. throws E (ops w + j)"
  proof -
    have lt': "length ?xs + ?m < c" using lt n le by simp
    from ex n have "\<exists>j<length ?xs. throws E (ops w + j)" by (simp add: Size_def)
    then obtain jt where jt: "jt < length ?xs" "\<forall>j<jt. \<not> throws E (ops w + j)"
      "throws E (ops w + jt)" by (rule first_throw)
    show ?thesis using Reserve_copy_throw_shape [OF lt' na nn cc jt fits] v by metis
  qed
  have nothrow: "e = AllocationError \<and> s = (v, w)"
    if "nothrow_move_constructible E" and "Reserve E c v w = Thrown e s" for e s
    using Reserve_Thrown_nothrow_shape [OF that(1) _ fits, of ?xs ?m w e s] that(2) v by simp
  have nothrow_fails: "Reserve E c v w = Thrown AllocationError (v, w)"
    if "Capacity v < c" and "alloc_fails E c"
    using that by (rule Reserve_alloc_fails)
  have nothrow_returns: "\<exists>v' w'. Reserve E c v w = Returned () (v', w')"
    if nt: "nothrow_move_constructible E" and ca: "c \<le> Capacity v \<or> \<not> alloc_fails E c"
  proof (cases "c \<le> Capacity v")
    case True
    then show ?thesis by (simp add: Reserve_noop)
  next
    case False
    then have lt': "length ?xs + ?m < c" using n le by simp
    from False ca have na: "\<not> alloc_fails E c" by simp
    have nt': "nothrow_move_constructible E \<or> (\<forall>j<length ?xs. \<not> throws E (ops w + j))"
      using nt by simp
    show ?thesis using Reserve_ok_shape [OF lt' na nt' fits] v by metis
  qed
  have move_only: "Size v' = Size v \<and> Capacity v' = Capacity v \<and> vector_inv v'
             \<and> leaked w' = leaked w
             \<and> (\<exists>jt\<le>Size v. elems v' = map (moved_from E) (take jt ?xs) @ drop jt ?xs)"
    if nn: "\<not> nothrow_move_constructible E" and nc: "\<not> copy_constructible E"
      and t: "Reserve E c v w = Thrown e (v', w')" for e v' w'
  proof -
    from t v have t': "Reserve E c \<lparr>m_data = map Some ?xs @ replicate ?m None,
        m_size = length ?xs\<rparr> w = Thrown e (v', w')" by simp
    from Reserve_Thrown_move_only_shape(1) [OF nn nc t' fits]
    obtain jt where jt: "jt \<le> length ?xs"
      and v': "v' = \<lparr>m_data = map Some (map (moved_from E) (take jt ?xs) @ drop jt ?xs)
                          @ replicate ?m None, m_size = length ?xs\<rparr>"
      by blast
    let ?zs = "map (moved_from E) (take jt ?xs) @ drop jt ?xs"
    have lz: "length ?zs = length ?xs" using jt by simp
    have v'': "v' = \<lparr>m_data = map Some ?zs @ replicate ?m None, m_size = length ?zs\<rparr>"
      using v' lz by simp
    have "Size v' = Size v" using n by (simp add: v' Size_def)
    moreover have "Capacity v' = Capacity v" using n le lz by (simp add: v' Capacity_def)
    moreover have "vector_inv v'" by (simp only: v'' vector_inv_intro)
    moreover have "leaked w' = leaked w"
      by (rule Reserve_Thrown_move_only_shape(2) [OF nn nc t' fits])
    moreover have "elems v' = ?zs" by (simp only: v'' elems_shape)
    ultimately show ?thesis using jt n by (auto simp: Size_def)
  qed
  have move_only_throws: "\<exists>v' w'. Reserve E c v w = Thrown ElementFailure (v', w')"
    if nn: "\<not> nothrow_move_constructible E" and nc: "\<not> copy_constructible E"
      and lt: "Capacity v < c" and na: "\<not> alloc_fails E c"
      and ex: "\<exists>j<Size v. throws E (ops w + j)"
  proof -
    have lt': "length ?xs + ?m < c" using lt n le by simp
    from ex n have "\<exists>j<length ?xs. throws E (ops w + j)" by (simp add: Size_def)
    then obtain jt where jt: "jt < length ?xs" "\<forall>j<jt. \<not> throws E (ops w + j)"
      "throws E (ops w + jt)" by (rule first_throw)
    show ?thesis using Reserve_move_throw_shape [OF lt' na nn nc jt fits] v by metis
  qed
  show ?thesis
    using strong propagates nothrow nothrow_fails nothrow_returns move_only move_only_throws
    by blast
qed

theorem Reserve_strong_guarantee_witness:
  "vector_inv \<lparr>m_data = [Some (1::nat), Some 2], m_size = 2\<rparr>
   \<and> fits_size_t (copy_throws_at 1) 5
   \<and> \<not> nothrow_move_constructible (copy_throws_at 1) \<and> copy_constructible (copy_throws_at 1)
   \<and> (\<exists>w'. Reserve (copy_throws_at 1) 5 \<lparr>m_data = [Some 1, Some 2], m_size = 2\<rparr> start
              = Thrown ElementFailure (\<lparr>m_data = [Some 1, Some 2], m_size = 2\<rparr>, w'))
   \<and> fits_size_t (int_like\<lparr>alloc_fails := \<lambda>n. True\<rparr>) 5
   \<and> nothrow_move_constructible (int_like\<lparr>alloc_fails := \<lambda>n. True\<rparr>)
   \<and> Reserve (int_like\<lparr>alloc_fails := \<lambda>n. True\<rparr>) 5
         \<lparr>m_data = [Some 1, Some 2], m_size = 2\<rparr> start
       = Thrown AllocationError (\<lparr>m_data = [Some 1, Some 2], m_size = 2\<rparr>, start)
   \<and> fits_size_t int_like 5 \<and> nothrow_move_constructible int_like
   \<and> (\<exists>v' w'. Reserve int_like 5 \<lparr>m_data = [Some 1, Some 2], m_size = 2\<rparr> start
                  = Returned () (v', w'))
   \<and> fits_size_t (move_only_throws_at 1) 5
   \<and> \<not> nothrow_move_constructible (move_only_throws_at 1)
   \<and> \<not> copy_constructible (move_only_throws_at 1)
   \<and> (\<exists>v' w'. Reserve (move_only_throws_at 1) 5 \<lparr>m_data = [Some 1, Some 2], m_size = 2\<rparr>
                    start = Thrown ElementFailure (v', w')
               \<and> Size v' = 2 \<and> Capacity v' = 2 \<and> vector_inv v' \<and> leaked w' = [])"
proof -
  let ?v = "\<lparr>m_data = [Some (1::nat), Some 2], m_size = 2\<rparr>"
  let ?F = "int_like\<lparr>alloc_fails := \<lambda>n. True\<rparr>"
  have i: "vector_inv ?v" by (simp add: vector_inv_def)
  have c: "Capacity ?v < 5" "Size ?v = 2" "Capacity ?v = 2"
    by (simp_all add: Capacity_def Size_def)
  have t: "\<not> nothrow_move_constructible (copy_throws_at 1)" "copy_constructible (copy_throws_at 1)"
    "\<not> alloc_fails (copy_throws_at 1) 5"
    by (simp_all add: copy_throws_at_def)
  have ft: "fits_size_t (copy_throws_at 1) 5" by (simp add: fits_size_t_def copy_throws_at_def)
  have "throws (copy_throws_at 1) (ops start + 1)" by (simp add: copy_throws_at_def start_def)
  then have ex: "\<exists>j<Size ?v. throws (copy_throws_at 1) (ops start + j)"
    using c(2) by (intro exI [of _ 1]) simp
  note tc = Reserve_strong_guarantee [OF i ft, of start]
  from tc t c(1) ex
  have a: "\<exists>w'. Reserve (copy_throws_at 1) 5 ?v start = Thrown ElementFailure (?v, w')"
    by blast
  have f: "nothrow_move_constructible ?F" "alloc_fails ?F 5" by (simp_all add: int_like_def)
  have ff: "fits_size_t ?F 5" by (simp add: fits_size_t_def int_like_def)
  from Reserve_strong_guarantee [OF i ff, of start] f c(1)
  have b: "Reserve ?F 5 ?v start = Thrown AllocationError (?v, start)" by blast
  have g: "nothrow_move_constructible int_like" "\<not> alloc_fails int_like 5"
    by (simp_all add: int_like_def)
  have fg: "fits_size_t int_like 5" by (simp add: fits_size_t_def int_like_def)
  from Reserve_strong_guarantee [OF i fg, of start] g
  have r: "\<exists>v' w'. Reserve int_like 5 ?v start = Returned () (v', w')" by blast
  have m: "\<not> nothrow_move_constructible (move_only_throws_at 1)"
    "\<not> copy_constructible (move_only_throws_at 1)"
    "\<not> alloc_fails (move_only_throws_at 1) 5"
    by (simp_all add: move_only_throws_at_def)
  have fm: "fits_size_t (move_only_throws_at 1) 5"
    by (simp add: fits_size_t_def move_only_throws_at_def)
  have "throws (move_only_throws_at 1) (ops start + 1)"
    by (simp add: move_only_throws_at_def start_def)
  then have ex': "\<exists>j<Size ?v. throws (move_only_throws_at 1) (ops start + j)"
    using c(2) by (intro exI [of _ 1]) simp
  note tm = Reserve_strong_guarantee [OF i fm, of start]
  from tm m c(1) ex'
  obtain v' w' where q: "Reserve (move_only_throws_at 1) 5 ?v start = Thrown ElementFailure (v', w')"
    by blast
  with tm m
  have "Size v' = Size ?v \<and> Capacity v' = Capacity ?v \<and> vector_inv v' \<and> leaked w' = leaked start"
    by blast
  then have "Size v' = 2 \<and> Capacity v' = 2 \<and> vector_inv v' \<and> leaked w' = []"
    using c by (simp add: start_def)
  with q have d: "\<exists>v' w'. Reserve (move_only_throws_at 1) 5 ?v start = Thrown ElementFailure (v', w')
               \<and> Size v' = 2 \<and> Capacity v' = 2 \<and> vector_inv v' \<and> leaked w' = []" by blast
  from i ft t(1,2) a ff f(1) b fg g(1) r fm m(1,2) d show ?thesis by blast
qed

section \<open>PushBack and EmplaceBack\<close>

lemma destroy_n_length: "destroy_n st first n = Some st' \<Longrightarrow> length st' = length st"
  by (induction n arbitrary: st first) (auto simp: destroy_at_def split: option.splits if_splits)

lemma uninitialized_copy_loop_length:
  "uninitialized_copy_loop E src first d_first current count dst k = Returned u (s, d, k')
     \<Longrightarrow> length d = length dst"
  by (induction count arbitrary: first current dst k)
    (auto split: if_splits option.splits)

lemma uninitialized_move_loop_length:
  "uninitialized_move_loop E src first d_first current count dst k = Returned u (s, d, k')
     \<Longrightarrow> length d = length dst"
  by (induction count arbitrary: src first current dst k)
    (auto split: if_splits option.splits)

lemma construct_at_length:
  "construct_at E st i x k = Returned u (st', k') \<Longrightarrow> length st' = length st"
  by (auto simp: construct_at_def split: if_splits)

lemma EmplaceBack_Returned_capacity:
  assumes "EmplaceBack E x v w = Returned r (v', w')"
  shows "Size v' = Size v + 1"
    and "Capacity v' = (if Size v = Capacity v then max 1 (2 * Size v) else Capacity v)"
proof -
  have "Size v' = Size v + 1
      \<and> Capacity v' = (if Size v = Capacity v then max 1 (2 * Size v) else Capacity v)"
  proof (cases "m_size v = Capacity v")
    case True
    have "max 1 (2 * m_size v) = (if m_size v = 0 then 1 else m_size v * 2)" by simp
    with True show ?thesis using assms
      by (auto simp: EmplaceBack_def Allocate_live_def Size_def Capacity_def uninitialized_copy_n_def
          uninitialized_move_n_def simp del: max_Suc1 max_Suc2 max_0L max_0R
          dest!: construct_at_length uninitialized_copy_loop_length uninitialized_move_loop_length
          split: if_splits sum.splits outcome.splits option.splits prod.splits)
  next
    case False
    then show ?thesis using assms
      by (auto simp: EmplaceBack_def Size_def Capacity_def dest!: construct_at_length
          split: outcome.splits prod.splits)
  qed
  then show "Size v' = Size v + 1"
    and "Capacity v' = (if Size v = Capacity v then max 1 (2 * Size v) else Capacity v)"
    by simp_all
qed

lemma raw_update:
  "n < c \<Longrightarrow> (replicate c None)[n := Some x] = replicate n None @ Some x # replicate (c - Suc n) None"
proof -
  assume "n < c"
  then have "replicate c (None::'a option) = replicate n None @ None # replicate (c - Suc n) None"
    by (metis Suc_diff_Suc add_diff_cancel_left' less_imp_add_positive replicate_Suc replicate_add)
  then show ?thesis by (simp add: list_update_append)
qed

lemma EmplaceBack_spare_ok:
  assumes "\<not> throws E (ops w)"
  shows "EmplaceBack E x \<lparr>m_data = map Some xs @ replicate (Suc m) None, m_size = length xs\<rparr> w
           = Returned (length xs)
               (\<lparr>m_data = map Some (xs @ [x]) @ replicate m None, m_size = length (xs @ [x])\<rparr>,
                w\<lparr>ops := Suc (ops w)\<rparr>)"
  using assms
  by (simp add: EmplaceBack_def Capacity_def construct_at_def nth_append list_update_append)

lemma EmplaceBack_grow_ok:
  assumes c: "c = (if length xs = 0 then 1 else length xs * 2)"
    and "\<not> alloc_fails E c"
    and "\<not> throws E (ops w)"
    and "nothrow_move_constructible E \<or> (\<forall>j<length xs. \<not> throws E (Suc (ops w) + j))"
  shows "EmplaceBack E x \<lparr>m_data = map Some xs, m_size = length xs\<rparr> w
           = Returned (length xs)
               (\<lparr>m_data = map Some (xs @ [x]) @ replicate (c - Suc (length xs)) None,
                  m_size = length (xs @ [x])\<rparr>,
                w\<lparr>ops := if nothrow_move_constructible E then Suc (ops w)
                          else Suc (ops w) + length xs\<rparr>)"
proof -
  let ?n = "length xs"
  let ?v = "\<lparr>m_data = map Some xs, m_size = length xs\<rparr>"
  let ?rest = "Some x # replicate (c - Suc ?n) None"
  have lt: "?n < c" using c by simp
  have al: "Allocate_live E (if m_size ?v = 0 then 1 else m_size ?v * 2) = Inr (replicate c None)"
    using assms(2) c by (auto simp: Allocate_live_def split: if_splits)
  have nd: "construct_at E (replicate c None) ?n x (ops w)
              = Returned () (replicate ?n None @ ?rest, Suc (ops w))"
    using assms(3) lt raw_update [OF lt, of x] by (simp add: construct_at_def)
  have ds: "destroy_n (map Some ys) 0 (length ys) = Some (replicate (length ys) None)" for ys :: "'a list"
    using destroy_n_live [where pre = "[]" and post = "[]" and xs = ys] by simp
  show ?thesis
  proof (cases "nothrow_move_constructible E \<or> \<not> copy_constructible E")
    case True
    have mv: "uninitialized_move_n E (map Some xs) 0 ?n (replicate ?n None @ ?rest) 0 (Suc (ops w))
                = Returned () (map Some (map (moved_from E) xs), map Some xs @ ?rest,
                    if nothrow_move_constructible E then Suc (ops w) else Suc (ops w) + ?n)"
      using uninitialized_move_loop_ok [where sp = "[]" and ss = "[]" and dp = "[]" and d_first = 0
          and ds = ?rest and xs = xs and E = E and k = "Suc (ops w)", OF assms(4)]
      by (simp add: uninitialized_move_n_def)
    show ?thesis
      using True al nd mv ds [of "map (moved_from E) xs"]
      by (simp add: EmplaceBack_def Capacity_def RawMemory_dtor_def)
  next
    case False
    then have nt: "\<forall>j<?n. \<not> throws E (Suc (ops w) + j)" using assms(4) by simp
    have cp: "uninitialized_copy_n E (map Some xs) 0 ?n (replicate ?n None @ ?rest) 0 (Suc (ops w))
                = Returned () (map Some xs, map Some xs @ ?rest, Suc (ops w) + ?n)"
      using uninitialized_copy_loop_ok [where sp = "[]" and ss = "[]" and dp = "[]" and d_first = 0
          and ds = ?rest and xs = xs and E = E and k = "Suc (ops w)", OF nt]
      by (simp add: uninitialized_copy_n_def)
    show ?thesis
      using False al nd cp ds [of xs]
      by (simp add: EmplaceBack_def Capacity_def RawMemory_dtor_def)
  qed
qed

lemma PushBack_step:
  assumes na: "\<forall>n. \<not> alloc_fails E n" and nt: "\<forall>k. \<not> throws E k"
    and cap: "(length xs = 0 \<and> m = 0) \<or> (\<exists>e. length xs + m = 2 ^ e \<and> 2 ^ e < 2 * length xs)"
  shows "\<exists>m' w'. PushBack E x \<lparr>m_data = map Some xs @ replicate m None, m_size = length xs\<rparr> w
             = Returned () (\<lparr>m_data = map Some (xs @ [x]) @ replicate m' None,
                              m_size = length (xs @ [x])\<rparr>, w')
           \<and> (\<exists>e. length (xs @ [x]) + m' = 2 ^ e \<and> 2 ^ e < 2 * length (xs @ [x]))"
proof (cases m)
  case 0
  define c where "c = (if length xs = 0 then 1 else length xs * 2)"
  have r: "EmplaceBack E x \<lparr>m_data = map Some xs, m_size = length xs\<rparr> w
             = Returned (length xs)
                 (\<lparr>m_data = map Some (xs @ [x]) @ replicate (c - Suc (length xs)) None,
                    m_size = length (xs @ [x])\<rparr>,
                  w\<lparr>ops := if nothrow_move_constructible E then Suc (ops w)
                            else Suc (ops w) + length xs\<rparr>)"
    by (rule EmplaceBack_grow_ok) (use na nt c_def in auto)
  have "\<exists>e. length (xs @ [x]) + (c - Suc (length xs)) = 2 ^ e \<and> 2 ^ e < 2 * length (xs @ [x])"
  proof (cases "length xs = 0")
    case True
    then have "length (xs @ [x]) + (c - Suc (length xs)) = 2 ^ 0 \<and> (2::nat) ^ 0 < 2 * length (xs @ [x])"
      by (simp add: c_def)
    then show ?thesis by blast
  next
    case False
    with cap 0 obtain e where e: "length xs = 2 ^ e" by auto
    from False have "length (xs @ [x]) + (c - Suc (length xs)) = 2 * length xs"
      by (simp add: c_def)
    with e have "length (xs @ [x]) + (c - Suc (length xs)) = 2 ^ Suc e
        \<and> (2::nat) ^ Suc e < 2 * length (xs @ [x])" by simp
    then show ?thesis by blast
  qed
  with r 0 show ?thesis by (simp add: PushBack_def)
next
  case (Suc m0)
  have r: "EmplaceBack E x \<lparr>m_data = map Some xs @ replicate (Suc m0) None, m_size = length xs\<rparr> w
           = Returned (length xs)
               (\<lparr>m_data = map Some (xs @ [x]) @ replicate m0 None, m_size = length (xs @ [x])\<rparr>,
                w\<lparr>ops := Suc (ops w)\<rparr>)"
    by (rule EmplaceBack_spare_ok) (use nt in simp)
  from cap Suc obtain e where e: "length xs + Suc m0 = 2 ^ e" "2 ^ e < 2 * length xs" by auto
  then have "length (xs @ [x]) + m0 = 2 ^ e \<and> 2 ^ e < 2 * length (xs @ [x])" by simp
  then have "\<exists>e. length (xs @ [x]) + m0 = 2 ^ e \<and> 2 ^ e < 2 * length (xs @ [x])" by blast
  with r Suc show ?thesis by (simp add: PushBack_def)
qed

lemma PushBack_all_doubling:
  assumes na: "\<forall>n. \<not> alloc_fails E n" and nt: "\<forall>k. \<not> throws E k"
    and cap: "(length xs = 0 \<and> m = 0) \<or> (\<exists>e. length xs + m = 2 ^ e \<and> 2 ^ e < 2 * length xs)"
  shows "\<exists>m' w'. PushBack_all E ys \<lparr>m_data = map Some xs @ replicate m None, m_size = length xs\<rparr> w
             = Returned () (\<lparr>m_data = map Some (xs @ ys) @ replicate m' None,
                              m_size = length (xs @ ys)\<rparr>, w')
           \<and> ((length (xs @ ys) = 0 \<and> m' = 0)
              \<or> (\<exists>e. length (xs @ ys) + m' = 2 ^ e \<and> 2 ^ e < 2 * length (xs @ ys)))"
  using cap
proof (induction ys arbitrary: xs m w)
  case Nil
  then show ?case by simp
next
  case (Cons y ys)
  from PushBack_step [OF na nt Cons.prems, of y w]
  obtain m1 w1 where
    s: "PushBack E y \<lparr>m_data = map Some xs @ replicate m None, m_size = length xs\<rparr> w
          = Returned () (\<lparr>m_data = map Some (xs @ [y]) @ replicate m1 None,
                           m_size = length (xs @ [y])\<rparr>, w1)"
    and c1: "\<exists>e. length (xs @ [y]) + m1 = 2 ^ e \<and> 2 ^ e < 2 * length (xs @ [y])"
    by blast
  from c1 have "(length (xs @ [y]) = 0 \<and> m1 = 0)
      \<or> (\<exists>e. length (xs @ [y]) + m1 = 2 ^ e \<and> 2 ^ e < 2 * length (xs @ [y]))" by blast
  from Cons.IH [OF this, of w1] s show ?case by simp
qed

text \<open>
  C7. Whenever \<^verbatim>\<open>EmplaceBack\<close> (or \<^verbatim>\<open>PushBack\<close>) returns, the size has grown by one
  and the capacity has changed only if the size was equal to the capacity, to
  \<open>max 1 (2 * size)\<close>. So, when no allocation fails and no element operation throws,
  appending the elements of any list \<open>xs\<close> one by one to a default-constructed vector
  returns a vector that holds \<open>xs\<close> and whose capacity is 0 for no element and otherwise
  the power of two \<open>2 ^ e\<close> with \<open>2 ^ e / 2 < length xs \<le> 2 ^ e\<close>: the capacities seen
  after 1, 2, 3, 4, 5, ... appends are 1, 2, 4, 4, 8, ...
\<close>

theorem EmplaceBack_doubles_capacity:
  "(\<forall>r v' w'. EmplaceBack E x v w = Returned r (v', w') \<longrightarrow>
       Size v' = Size v + 1
     \<and> Capacity v' = (if Size v = Capacity v then max 1 (2 * Size v) else Capacity v))
   \<and> (\<forall>u v' w'. PushBack E x v w = Returned u (v', w') \<longrightarrow>
       Size v' = Size v + 1
     \<and> Capacity v' = (if Size v = Capacity v then max 1 (2 * Size v) else Capacity v))
   \<and> ((\<forall>n. \<not> alloc_fails E n) \<and> (\<forall>k. \<not> throws E k) \<longrightarrow>
       (\<exists>v' w'. PushBack_all E xs Vector_default w = Returned () (v', w')
          \<and> Size v' = length xs \<and> elems v' = xs
          \<and> (if xs = [] then Capacity v' = 0
              else \<exists>e. Capacity v' = 2 ^ e \<and> length xs \<le> 2 ^ e \<and> 2 ^ e < 2 * length xs)))"
proof -
  have a: "Size v' = Size v + 1
       \<and> Capacity v' = (if Size v = Capacity v then max 1 (2 * Size v) else Capacity v)"
    if "EmplaceBack E x v w = Returned r (v', w')" for r v' w'
    using EmplaceBack_Returned_capacity [OF that] by simp
  have b: "\<exists>v' w'. PushBack_all E xs Vector_default w = Returned () (v', w')
          \<and> Size v' = length xs \<and> elems v' = xs
          \<and> (if xs = [] then Capacity v' = 0
              else \<exists>e. Capacity v' = 2 ^ e \<and> length xs \<le> 2 ^ e \<and> 2 ^ e < 2 * length xs)"
    if na: "\<forall>n. \<not> alloc_fails E n" and nt: "\<forall>k. \<not> throws E k"
  proof -
    have d: "Vector_default = \<lparr>m_data = map Some [] @ replicate 0 None, m_size = length ([]::'a list)\<rparr>"
      by (simp add: Vector_default_def)
    have "(length ([]::'a list) = 0 \<and> (0::nat) = 0)
        \<or> (\<exists>e. length ([]::'a list) + 0 = 2 ^ e \<and> 2 ^ e < 2 * length ([]::'a list))" by simp
    from PushBack_all_doubling [OF na nt this, of xs w]
    obtain m' w' where
      r: "PushBack_all E xs Vector_default w
            = Returned () (\<lparr>m_data = map Some xs @ replicate m' None, m_size = length xs\<rparr>, w')"
      and c: "(length xs = 0 \<and> m' = 0) \<or> (\<exists>e. length xs + m' = 2 ^ e \<and> 2 ^ e < 2 * length xs)"
      unfolding d by auto
    let ?v = "\<lparr>m_data = map Some xs @ replicate m' None, m_size = length xs\<rparr>"
    have "Size ?v = length xs" by (simp add: Size_def)
    moreover have "elems ?v = xs" by (rule elems_shape)
    moreover have "if xs = [] then Capacity ?v = 0
              else \<exists>e. Capacity ?v = 2 ^ e \<and> length xs \<le> 2 ^ e \<and> 2 ^ e < 2 * length xs"
    proof (cases "xs = []")
      case True
      with c show ?thesis by (simp add: Capacity_def)
    next
      case False
      with c obtain e where "length xs + m' = 2 ^ e" "2 ^ e < 2 * length xs" by auto
      then have "Capacity ?v = 2 ^ e \<and> length xs \<le> 2 ^ e \<and> 2 ^ e < 2 * length xs"
        by (simp add: Capacity_def)
      with False show ?thesis by auto
    qed
    ultimately show ?thesis using r by blast
  qed
  have p: "Size v' = Size v + 1
       \<and> Capacity v' = (if Size v = Capacity v then max 1 (2 * Size v) else Capacity v)"
    if "PushBack E x v w = Returned u (v', w')" for u v' w'
  proof -
    from that obtain r where "EmplaceBack E x v w = Returned r (v', w')"
      by (auto simp: PushBack_def split: outcome.splits)
    then show ?thesis by (rule a)
  qed
  show ?thesis using a p b by blast
qed

theorem EmplaceBack_doubles_capacity_witness:
  "(\<forall>n. \<not> alloc_fails int_like n) \<and> (\<forall>k. \<not> throws int_like k)
   \<and> (\<exists>v' w'. EmplaceBack int_like 7 \<lparr>m_data = [Some 1, Some 2], m_size = 2\<rparr> start
                  = Returned 2 (v', w')
               \<and> Size v' = 3 \<and> Capacity v' = 4)
   \<and> (\<exists>v' w' e. PushBack_all int_like [1, 2, 3] Vector_default start = Returned () (v', w')
               \<and> elems v' = [1, 2, 3] \<and> Capacity v' = 2 ^ e \<and> 3 \<le> (2::nat) ^ e
               \<and> (2::nat) ^ e < 6)"
proof -
  let ?v = "\<lparr>m_data = [Some (1::nat), Some 2], m_size = 2\<rparr>"
  note t = EmplaceBack_doubles_capacity [of int_like 7 ?v start "[1, 2, 3]"]
  have e: "\<forall>n. \<not> alloc_fails int_like n" "\<forall>k. \<not> throws int_like k"
    by (simp_all add: int_like_def)
  have "EmplaceBack int_like 7 ?v start
      = Returned 2 (\<lparr>m_data = [Some 1, Some 2, Some 7, None], m_size = 3\<rparr>,
          \<lparr>ops = 1, leaked = []\<rparr>)"
    by code_simp
  then obtain v' w' where r: "EmplaceBack int_like 7 ?v start = Returned 2 (v', w')" by blast
  with t have "Size v' = Size ?v + 1
      \<and> Capacity v' = (if Size ?v = Capacity ?v then max 1 (2 * Size ?v) else Capacity ?v)"
    by blast
  then have a: "Size v' = 3 \<and> Capacity v' = 4" by (simp add: Size_def Capacity_def)
  from t e have "\<exists>v' w'. PushBack_all int_like [1, 2, 3] Vector_default start
        = Returned () (v', w') \<and> Size v' = length [1, 2, 3::nat] \<and> elems v' = [1, 2, 3]
      \<and> (if [1, 2, 3::nat] = [] then Capacity v' = 0
          else \<exists>e. Capacity v' = 2 ^ e \<and> length [1, 2, 3::nat] \<le> 2 ^ e
               \<and> 2 ^ e < 2 * length [1, 2, 3::nat])"
    by blast
  then have b: "\<exists>v' w' e. PushBack_all int_like [1, 2, 3] Vector_default start
        = Returned () (v', w') \<and> elems v' = [1, 2, 3] \<and> Capacity v' = 2 ^ e
        \<and> 3 \<le> (2::nat) ^ e \<and> (2::nat) ^ e < 6"
    by auto
  from e r a b show ?thesis by blast
qed

section \<open>Copy assignment\<close>

lemma std_copy_ok:
  "length xs = length ys \<Longrightarrow> \<forall>j<length xs. \<not> throws E (k + j) \<Longrightarrow>
   std_copy E (sp @ map Some xs @ ss) (length sp) (length xs) (dp @ map Some ys @ ds) (length dp) k
     = Returned () (dp @ map Some xs @ ds, k + length xs)"
proof (induction xs ys arbitrary: sp dp k rule: list_induct2)
  case Nil
  then show ?case by simp
next
  case (Cons x xs y ys)
  have nt: "\<not> throws E k" using Cons.prems by force
  have rest: "\<forall>j<length xs. \<not> throws E (Suc k + j)" using Cons.prems by force
  have "std_copy E ((sp @ [Some x]) @ map Some xs @ ss) (length (sp @ [Some x])) (length xs)
          ((dp @ [Some x]) @ map Some ys @ ds) (length (dp @ [Some x])) (Suc k)
        = Returned () ((dp @ [Some x]) @ map Some xs @ ds, Suc k + length xs)"
    by (rule Cons.IH [OF rest])
  then show ?case using nt by (simp add: nth_append list_update_append)
qed

lemma std_copy_throw:
  "length xs = length ys \<Longrightarrow> jt < length xs \<Longrightarrow> \<forall>j<jt. \<not> throws E (k + j) \<Longrightarrow>
   throws E (k + jt) \<Longrightarrow>
   std_copy E (sp @ map Some xs @ ss) (length sp) (length xs) (dp @ map Some ys @ ds) (length dp) k
     = Thrown ElementFailure
         (dp @ map Some (take jt xs) @ map Some (drop jt ys) @ ds, Suc (k + jt))"
proof (induction xs ys arbitrary: sp dp k jt rule: list_induct2)
  case Nil
  then show ?case by simp
next
  case (Cons x xs y ys)
  show ?case
  proof (cases jt)
    case 0
    then show ?thesis using Cons.prems by (simp add: nth_append)
  next
    case (Suc j')
    have nt: "\<not> throws E k" using Cons.prems Suc by force
    have a: "j' < length xs" using Cons.prems Suc by simp
    have b: "\<forall>j<j'. \<not> throws E (Suc k + j)" using Cons.prems Suc by force
    have c: "throws E (Suc k + j')" using Cons.prems Suc by simp
    have "std_copy E ((sp @ [Some x]) @ map Some xs @ ss) (length (sp @ [Some x])) (length xs)
            ((dp @ [Some x]) @ map Some ys @ ds) (length (dp @ [Some x])) (Suc k)
          = Thrown ElementFailure
              ((dp @ [Some x]) @ map Some (take j' xs) @ map Some (drop j' ys) @ ds,
               Suc (Suc k + j'))"
      by (rule Cons.IH [OF a b c])
    then show ?thesis using nt Suc by (simp add: nth_append list_update_append)
  qed
qed

lemma Vector_dtor_shape:
  "Vector_dtor \<lparr>m_data = map Some xs @ replicate m None, m_size = length xs\<rparr> w = Some w"
  using destroy_n_prefix [of xs "replicate m None"]
  by (simp add: Vector_dtor_def RawMemory_dtor_def)

lemma Vector_copy_ok:
  assumes "\<not> alloc_fails E (length ys)" and "\<forall>j<length ys. \<not> throws E (ops w + j)"
  shows "Vector_copy E \<lparr>m_data = map Some ys @ replicate mb None, m_size = length ys\<rparr> w
           = Returned \<lparr>m_data = map Some ys, m_size = length ys\<rparr> (w\<lparr>ops := ops w + length ys\<rparr>)"
  using assms(1) copy_into_fresh [of ys "length ys" E "ops w" "replicate mb None", OF _ assms(2)]
  by (simp add: Vector_copy_def Allocate_live_def)

lemma Vector_copy_throw:
  assumes "\<not> alloc_fails E (length ys)" and "jt < length ys"
    and "\<forall>j<jt. \<not> throws E (ops w + j)" and "throws E (ops w + jt)"
  shows "Vector_copy E \<lparr>m_data = map Some ys @ replicate mb None, m_size = length ys\<rparr> w
           = Thrown ElementFailure (w\<lparr>ops := Suc (ops w + jt)\<rparr>)"
  using assms(1)
    copy_into_fresh_throw [of ys "length ys" jt E "ops w" "replicate mb None", OF _ assms(2-4)]
  by (simp add: Vector_copy_def Allocate_live_def RawMemory_dtor_def)

lemma copy_assign_swap_ok:
  assumes "length xs + m < length ys"
    and "\<not> alloc_fails E (length ys)" and "\<forall>j<length ys. \<not> throws E (ops w + j)"
  shows "copy_assign E \<lparr>m_data = map Some xs @ replicate m None, m_size = length xs\<rparr>
             \<lparr>m_data = map Some ys @ replicate mb None, m_size = length ys\<rparr> w
           = Returned ()
               (\<lparr>m_data = map Some ys, m_size = length ys\<rparr>,
                \<lparr>m_data = map Some ys @ replicate mb None, m_size = length ys\<rparr>,
                w\<lparr>ops := ops w + length ys\<rparr>)"
  using assms(1) Vector_copy_ok [OF assms(2,3), of mb]
    Vector_dtor_shape [of xs m "w\<lparr>ops := ops w + length ys\<rparr>"]
  by (simp add: copy_assign_def Capacity_def Swap_def RawMemory_Swap_def)

lemma copy_assign_swap_alloc_fails:
  assumes "length xs + m < length ys" and "alloc_fails E (length ys)"
  shows "copy_assign E \<lparr>m_data = map Some xs @ replicate m None, m_size = length xs\<rparr>
             \<lparr>m_data = map Some ys @ replicate mb None, m_size = length ys\<rparr> w
           = Thrown AllocationError
               (\<lparr>m_data = map Some xs @ replicate m None, m_size = length xs\<rparr>,
                \<lparr>m_data = map Some ys @ replicate mb None, m_size = length ys\<rparr>, w)"
  using assms by (auto simp: copy_assign_def Capacity_def Vector_copy_def Allocate_live_def)

lemma copy_assign_swap_throw:
  assumes "length xs + m < length ys"
    and "\<not> alloc_fails E (length ys)" and "jt < length ys"
    and "\<forall>j<jt. \<not> throws E (ops w + j)" and "throws E (ops w + jt)"
  shows "copy_assign E \<lparr>m_data = map Some xs @ replicate m None, m_size = length xs\<rparr>
             \<lparr>m_data = map Some ys @ replicate mb None, m_size = length ys\<rparr> w
           = Thrown ElementFailure
               (\<lparr>m_data = map Some xs @ replicate m None, m_size = length xs\<rparr>,
                \<lparr>m_data = map Some ys @ replicate mb None, m_size = length ys\<rparr>,
                w\<lparr>ops := Suc (ops w + jt)\<rparr>)"
  using assms(1) Vector_copy_throw [OF assms(2-5), of mb]
  by (simp add: copy_assign_def Capacity_def)

lemma copy_assign_shrink_ok:
  assumes "length xa = length ys" and "xb \<noteq> []"
    and "\<forall>j<length ys. \<not> throws E (ops w + j)"
  shows "copy_assign E \<lparr>m_data = map Some (xa @ xb) @ replicate m None, m_size = length (xa @ xb)\<rparr>
             \<lparr>m_data = map Some ys @ replicate mb None, m_size = length ys\<rparr> w
           = Returned ()
               (\<lparr>m_data = map Some ys @ replicate (length xb + m) None, m_size = length ys\<rparr>,
                \<lparr>m_data = map Some ys @ replicate mb None, m_size = length ys\<rparr>,
                w\<lparr>ops := ops w + length ys\<rparr>)"
proof -
  have lt: "length ys < length (xa @ xb)" using assms(1,2) by simp
  have cp: "std_copy E (map Some ys @ replicate mb None) 0 (length ys)
              (map Some xa @ map Some xb @ replicate m None) 0 (ops w)
            = Returned () (map Some ys @ map Some xb @ replicate m None, ops w + length ys)"
    using std_copy_ok [where sp = "[]" and dp = "[]" and xs = ys and ys = xa
        and ss = "replicate mb None" and ds = "map Some xb @ replicate m None"
        and E = E and k = "ops w"] assms(1,3)
    by simp
  have ds: "destroy_n (map Some ys @ map Some xb @ replicate m None) (length ys) (length xb)
            = Some (map Some ys @ replicate (length xb) None @ replicate m None)"
    using destroy_n_live [where pre = "map Some ys" and xs = xb and post = "replicate m None"]
    by simp
  show ?thesis
    using lt cp ds assms(1)
    by (simp add: copy_assign_def Capacity_def replicate_add)
qed

lemma copy_assign_shrink_throw:
  assumes "length xa = length ys" and "xb \<noteq> []"
    and "jt < length ys" and "\<forall>j<jt. \<not> throws E (ops w + j)" and "throws E (ops w + jt)"
  shows "copy_assign E \<lparr>m_data = map Some (xa @ xb) @ replicate m None, m_size = length (xa @ xb)\<rparr>
             \<lparr>m_data = map Some ys @ replicate mb None, m_size = length ys\<rparr> w
           = Thrown ElementFailure
               (\<lparr>m_data = map Some (take jt ys @ drop jt xa @ xb) @ replicate m None,
                  m_size = length (xa @ xb)\<rparr>,
                \<lparr>m_data = map Some ys @ replicate mb None, m_size = length ys\<rparr>,
                w\<lparr>ops := Suc (ops w + jt)\<rparr>)"
proof -
  have lt: "length ys < length (xa @ xb)" using assms(1,2) by simp
  have cp: "std_copy E (map Some ys @ replicate mb None) 0 (length ys)
              (map Some xa @ map Some xb @ replicate m None) 0 (ops w)
            = Thrown ElementFailure
                (map Some (take jt ys) @ map Some (drop jt xa) @ map Some xb @ replicate m None,
                 Suc (ops w + jt))"
    using std_copy_throw [where sp = "[]" and dp = "[]" and xs = ys and ys = xa
        and ss = "replicate mb None" and ds = "map Some xb @ replicate m None"
        and E = E and k = "ops w" and jt = jt] assms(1,3,4,5)
    by simp
  show ?thesis
    using lt cp assms(1)
    by (simp add: copy_assign_def Capacity_def)
qed

lemma copy_assign_extend_ok:
  assumes "length ya = length xs"
    and "\<forall>j<length (ya @ yb). \<not> throws E (ops w + j)"
  shows "copy_assign E
             \<lparr>m_data = map Some xs @ replicate (length yb + m) None, m_size = length xs\<rparr>
             \<lparr>m_data = map Some (ya @ yb) @ replicate mb None, m_size = length (ya @ yb)\<rparr> w
           = Returned ()
               (\<lparr>m_data = map Some (ya @ yb) @ replicate m None, m_size = length (ya @ yb)\<rparr>,
                \<lparr>m_data = map Some (ya @ yb) @ replicate mb None, m_size = length (ya @ yb)\<rparr>,
                w\<lparr>ops := ops w + length (ya @ yb)\<rparr>)"
proof -
  have n1: "\<forall>j<length ya. \<not> throws E (ops w + j)" using assms(2) by simp
  have n2: "\<forall>j<length yb. \<not> throws E (ops w + length ya + j)"
    using assms(2) by (simp add: add.assoc)
  have cp: "std_copy E (map Some ya @ map Some yb @ replicate mb None) 0 (length xs)
              (map Some xs @ replicate (length yb) None @ replicate m None) 0 (ops w)
            = Returned () (map Some ya @ replicate (length yb) None @ replicate m None,
                 ops w + length ya)"
    using std_copy_ok [where sp = "[]" and dp = "[]" and xs = ya and ys = xs
        and ss = "map Some yb @ replicate mb None"
        and ds = "replicate (length yb) None @ replicate m None"
        and E = E and k = "ops w", OF assms(1) n1] assms(1)
    by simp
  have uc: "uninitialized_copy_n E (map Some ya @ map Some yb @ replicate mb None) (length xs)
              (length yb) (map Some ya @ replicate (length yb) None @ replicate m None)
              (length xs) (ops w + length ya)
            = Returned () (map Some ya @ map Some yb @ replicate mb None,
                 map Some ya @ map Some yb @ replicate m None, ops w + length ya + length yb)"
    using uninitialized_copy_loop_ok [where sp = "map Some ya" and dp = "map Some ya"
        and xs = yb and ss = "replicate mb None" and ds = "replicate m None"
        and d_first = "length xs" and E = E and k = "ops w + length ya", OF n2] assms(1)
    by (simp add: uninitialized_copy_n_def)
  show ?thesis
    using cp uc assms(1)
    by (simp add: copy_assign_def Capacity_def replicate_add add.assoc)
qed

lemma copy_assign_extend_throw_assign:
  assumes "length ya = length xs"
    and "jt < length ya" and "\<forall>j<jt. \<not> throws E (ops w + j)" and "throws E (ops w + jt)"
  shows "copy_assign E
             \<lparr>m_data = map Some xs @ replicate (length yb + m) None, m_size = length xs\<rparr>
             \<lparr>m_data = map Some (ya @ yb) @ replicate mb None, m_size = length (ya @ yb)\<rparr> w
           = Thrown ElementFailure
               (\<lparr>m_data = map Some (take jt ya @ drop jt xs) @ replicate (length yb + m) None,
                  m_size = length xs\<rparr>,
                \<lparr>m_data = map Some (ya @ yb) @ replicate mb None, m_size = length (ya @ yb)\<rparr>,
                w\<lparr>ops := Suc (ops w + jt)\<rparr>)"
proof -
  have cp: "std_copy E (map Some ya @ map Some yb @ replicate mb None) 0 (length xs)
              (map Some xs @ replicate (length yb) None @ replicate m None) 0 (ops w)
            = Thrown ElementFailure
                (map Some (take jt ya) @ map Some (drop jt xs) @ replicate (length yb) None
                   @ replicate m None, Suc (ops w + jt))"
    using std_copy_throw [where sp = "[]" and dp = "[]" and xs = ya and ys = xs
        and ss = "map Some yb @ replicate mb None"
        and ds = "replicate (length yb) None @ replicate m None"
        and E = E and k = "ops w" and jt = jt, OF assms(1,2,3,4)] assms(1)
    by simp
  show ?thesis
    using cp assms(1)
    by (simp add: copy_assign_def Capacity_def replicate_add)
qed

lemma copy_assign_extend_throw_construct:
  assumes "length ya = length xs"
    and "jt < length yb" and "\<forall>j<length ya + jt. \<not> throws E (ops w + j)"
    and "throws E (ops w + (length ya + jt))"
  shows "copy_assign E
             \<lparr>m_data = map Some xs @ replicate (length yb + m) None, m_size = length xs\<rparr>
             \<lparr>m_data = map Some (ya @ yb) @ replicate mb None, m_size = length (ya @ yb)\<rparr> w
           = Thrown ElementFailure
               (\<lparr>m_data = map Some ya @ replicate (length yb + m) None, m_size = length xs\<rparr>,
                \<lparr>m_data = map Some (ya @ yb) @ replicate mb None, m_size = length (ya @ yb)\<rparr>,
                w\<lparr>ops := Suc (ops w + (length ya + jt))\<rparr>)"
proof -
  have n1: "\<forall>j<length ya. \<not> throws E (ops w + j)" using assms(3) by simp
  have n2: "\<forall>j<jt. \<not> throws E (ops w + length ya + j)"
    using assms(3) by (simp add: add.assoc)
  have t2: "throws E (ops w + length ya + jt)" using assms(4) by (simp add: add.assoc)
  have cp: "std_copy E (map Some ya @ map Some yb @ replicate mb None) 0 (length xs)
              (map Some xs @ replicate (length yb) None @ replicate m None) 0 (ops w)
            = Returned () (map Some ya @ replicate (length yb) None @ replicate m None,
                 ops w + length ya)"
    using std_copy_ok [where sp = "[]" and dp = "[]" and xs = ya and ys = xs
        and ss = "map Some yb @ replicate mb None"
        and ds = "replicate (length yb) None @ replicate m None"
        and E = E and k = "ops w", OF assms(1) n1] assms(1)
    by simp
  have uc: "uninitialized_copy_n E (map Some ya @ map Some yb @ replicate mb None) (length xs)
              (length yb) (map Some ya @ replicate (length yb) None @ replicate m None)
              (length xs) (ops w + length ya)
            = Thrown ElementFailure (map Some ya @ map Some yb @ replicate mb None,
                 map Some ya @ replicate (length yb) None @ replicate m None,
                 Suc (ops w + length ya + jt))"
    using uninitialized_copy_loop_throw [where sp = "map Some ya" and dq = "map Some ya"
        and ys = "[]" and xs = yb and ss = "replicate mb None" and ds = "replicate m None"
        and E = E and k = "ops w + length ya" and jt = jt, OF assms(2) n2 t2] assms(1)
    by (simp add: uninitialized_copy_n_def)
  show ?thesis
    using cp uc assms(1)
    by (simp add: copy_assign_def Capacity_def replicate_add add.assoc)
qed

lemma vector_inv_intro':
  "length zs = n \<Longrightarrow> vector_inv \<lparr>m_data = map Some zs @ replicate m None, m_size = n\<rparr>"
  using vector_inv_intro [of zs m] by simp

lemma copy_assign_ok_shape:
  assumes "\<not> (length xs + m < length ys \<and> alloc_fails E (length ys))"
    and nt: "\<forall>j<length ys. \<not> throws E (ops w + j)"
  shows "copy_assign E \<lparr>m_data = map Some xs @ replicate m None, m_size = length xs\<rparr>
             \<lparr>m_data = map Some ys @ replicate mb None, m_size = length ys\<rparr> w
           = Returned ()
               (\<lparr>m_data = map Some ys
                    @ replicate (if length xs + m < length ys then 0 else length xs + m - length ys)
                        None,
                  m_size = length ys\<rparr>,
                \<lparr>m_data = map Some ys @ replicate mb None, m_size = length ys\<rparr>,
                w\<lparr>ops := ops w + length ys\<rparr>)"
proof -
  consider (swap) "length xs + m < length ys"
    | (shrink) "length ys < length xs"
    | (extend) "length xs \<le> length ys" "length ys \<le> length xs + m"
    by linarith
  then show ?thesis
  proof cases
    case swap
    then show ?thesis using copy_assign_swap_ok [OF swap _ nt] assms(1) by simp
  next
    case shrink
    have "length (take (length ys) xs) = length ys" "drop (length ys) xs \<noteq> []"
      using shrink by simp_all
    from copy_assign_shrink_ok [OF this nt, of m mb] shrink show ?thesis by simp
  next
    case extend
    have l: "length (take (length xs) ys) = length xs" using extend by simp
    have nt': "\<forall>j<length (take (length xs) ys @ drop (length xs) ys). \<not> throws E (ops w + j)"
      using nt by simp
    have m: "length (drop (length xs) ys) + (length xs + m - length ys) = m"
      using extend by simp
    from copy_assign_extend_ok [OF l nt', of "length xs + m - length ys" mb] extend m
    show ?thesis by simp
  qed
qed

lemma copy_assign_fail_pack:
  assumes "copy_assign E a b w = Thrown e (a', b, w')"
    and "leaked w' = leaked w" and "m_size a' = n" and "length (m_data a') = c"
    and "vector_inv a'" and "P \<longrightarrow> a' = a"
  shows "\<exists>e a' w'. copy_assign E a b w = Thrown e (a', b, w')
         \<and> leaked w' = leaked w \<and> m_size a' = n \<and> length (m_data a') = c
         \<and> vector_inv a' \<and> (P \<longrightarrow> a' = a)"
  using assms by blast

lemma copy_assign_fail_shape:
  assumes "(length xs + m < length ys \<and> alloc_fails E (length ys))
         \<or> (\<exists>j<length ys. throws E (ops w + j))"
  shows "\<exists>e a' w'.
           copy_assign E \<lparr>m_data = map Some xs @ replicate m None, m_size = length xs\<rparr>
               \<lparr>m_data = map Some ys @ replicate mb None, m_size = length ys\<rparr> w
             = Thrown e (a', \<lparr>m_data = map Some ys @ replicate mb None, m_size = length ys\<rparr>, w')
         \<and> leaked w' = leaked w \<and> m_size a' = length xs \<and> length (m_data a') = length xs + m
         \<and> vector_inv a'
         \<and> (length xs + m < length ys
              \<longrightarrow> a' = \<lparr>m_data = map Some xs @ replicate m None, m_size = length xs\<rparr>)"
proof (cases "length xs + m < length ys \<and> alloc_fails E (length ys)")
  case True
  show ?thesis
    by (rule copy_assign_fail_pack [OF copy_assign_swap_alloc_fails])
      (use True in \<open>simp_all add: vector_inv_intro\<close>)
next
  case False
  with assms have "\<exists>j<length ys. throws E (ops w + j)" by blast
  then obtain jt where jt: "jt < length ys" "\<forall>j<jt. \<not> throws E (ops w + j)"
    "throws E (ops w + jt)" by (rule first_throw)
  consider (swap) "length xs + m < length ys"
    | (shrink) "length ys < length xs"
    | (assign) "length xs \<le> length ys" "length ys \<le> length xs + m" "jt < length xs"
    | (construct) "length xs \<le> length ys" "length ys \<le> length xs + m" "length xs \<le> jt"
    by linarith
  then show ?thesis
  proof cases
    case swap
    with False have "\<not> alloc_fails E (length ys)" by simp
    show ?thesis
      by (rule copy_assign_fail_pack [OF copy_assign_swap_throw [OF swap \<open>\<not> alloc_fails E (length ys)\<close> jt]])
        (simp_all add: vector_inv_intro)
  next
    case shrink
    let ?zs = "take jt ys @ drop jt (take (length ys) xs) @ drop (length ys) xs"
    have p: "length (take (length ys) xs) = length ys" "drop (length ys) xs \<noteq> []"
      using shrink by simp_all
    have lz: "length ?zs = length xs" using shrink jt(1) by simp
    have eq: "copy_assign E \<lparr>m_data = map Some xs @ replicate m None, m_size = length xs\<rparr>
               \<lparr>m_data = map Some ys @ replicate mb None, m_size = length ys\<rparr> w
             = Thrown ElementFailure
                 (\<lparr>m_data = map Some ?zs @ replicate m None, m_size = length xs\<rparr>,
                  \<lparr>m_data = map Some ys @ replicate mb None, m_size = length ys\<rparr>,
                  w\<lparr>ops := Suc (ops w + jt)\<rparr>)"
      using copy_assign_shrink_throw [OF p jt, of m mb] by simp
    show ?thesis
    proof (rule copy_assign_fail_pack [OF eq])
      show "vector_inv \<lparr>m_data = map Some ?zs @ replicate m None, m_size = length xs\<rparr>"
        by (rule vector_inv_intro' [OF lz])
      show "length (m_data \<lparr>m_data = map Some ?zs @ replicate m None, m_size = length xs\<rparr>)
              = length xs + m" using lz by simp
    qed (use shrink in simp_all)
  next
    case assign
    let ?zs = "take jt (take (length xs) ys) @ drop jt xs"
    have l: "length (take (length xs) ys) = length xs" using assign by simp
    have j: "jt < length (take (length xs) ys)" using assign by simp
    have m: "length (drop (length xs) ys) + (length xs + m - length ys) = m"
      using assign by simp
    have lz: "length ?zs = length xs" using assign by simp
    have eq: "copy_assign E \<lparr>m_data = map Some xs @ replicate m None, m_size = length xs\<rparr>
               \<lparr>m_data = map Some ys @ replicate mb None, m_size = length ys\<rparr> w
             = Thrown ElementFailure
                 (\<lparr>m_data = map Some ?zs @ replicate m None, m_size = length xs\<rparr>,
                  \<lparr>m_data = map Some ys @ replicate mb None, m_size = length ys\<rparr>,
                  w\<lparr>ops := Suc (ops w + jt)\<rparr>)"
      using copy_assign_extend_throw_assign [OF l j jt(2,3),
          of "drop (length xs) ys" "length xs + m - length ys" mb] m
      by simp
    show ?thesis
    proof (rule copy_assign_fail_pack [OF eq])
      show "vector_inv \<lparr>m_data = map Some ?zs @ replicate m None, m_size = length xs\<rparr>"
        by (rule vector_inv_intro' [OF lz])
      show "length (m_data \<lparr>m_data = map Some ?zs @ replicate m None, m_size = length xs\<rparr>)
              = length xs + m" using lz by simp
    qed (use assign in simp_all)
  next
    case construct
    let ?zs = "take (length xs) ys"
    have l: "length ?zs = length xs" using construct by simp
    have j: "jt - length xs < length (drop (length xs) ys)" using construct jt(1) by simp
    have e: "length ?zs + (jt - length xs) = jt" using construct by simp
    have m: "length (drop (length xs) ys) + (length xs + m - length ys) = m"
      using construct by simp
    have eq: "copy_assign E \<lparr>m_data = map Some xs @ replicate m None, m_size = length xs\<rparr>
               \<lparr>m_data = map Some ys @ replicate mb None, m_size = length ys\<rparr> w
             = Thrown ElementFailure
                 (\<lparr>m_data = map Some ?zs @ replicate m None, m_size = length xs\<rparr>,
                  \<lparr>m_data = map Some ys @ replicate mb None, m_size = length ys\<rparr>,
                  w\<lparr>ops := Suc (ops w + jt)\<rparr>)"
      using copy_assign_extend_throw_construct [OF l j, of E w "length xs + m - length ys" mb]
        jt(2,3) e m
      by simp
    show ?thesis
    proof (rule copy_assign_fail_pack [OF eq])
      show "vector_inv \<lparr>m_data = map Some ?zs @ replicate m None, m_size = length xs\<rparr>"
        by (rule vector_inv_intro' [OF l])
      show "length (m_data \<lparr>m_data = map Some ?zs @ replicate m None, m_size = length xs\<rparr>)
              = length xs + m" using l by simp
    qed (use construct in simp_all)
  qed
qed

text \<open>
  C8. For two different vectors \<open>a\<close> and \<open>b\<close> that hold the invariant, \<open>a = b\<close>:
  \<^item> whenever it returns, \<open>a\<close> has the size and the elements of \<open>b\<close>, in order, \<open>b\<close> is
    unchanged, nothing is leaked, \<open>size b\<close> element operations were run, and \<open>a\<close> has a
    new block of exactly \<open>size b\<close> slots if \<open>size b\<close> exceeded its capacity (copy and
    swap) and its own block otherwise, with every slot past the new size raw;
  \<^item> whenever it throws, \<open>b\<close> is unchanged, nothing is leaked, and \<open>a\<close> keeps its size
    and its block (the size is written last); in the copy-and-swap case \<open>a\<close> is exactly
    as before (strong guarantee);
  \<^item> it returns when no element operation throws and, where a new block is needed, the
    allocation succeeds.
\<close>

theorem copy_assign_copies:
  assumes "vector_inv a" and "vector_inv b"
  shows "(\<forall>u a' b' w'. copy_assign E a b w = Returned u (a', b', w') \<longrightarrow>
            Size a' = Size b \<and> elems a' = elems b \<and> b' = b \<and> vector_inv a'
          \<and> leaked w' = leaked w \<and> ops w' = ops w + Size b
          \<and> Capacity a' = (if Capacity a < Size b then Size b else Capacity a))
       \<and> (\<forall>e a' b' w'. copy_assign E a b w = Thrown e (a', b', w') \<longrightarrow>
            b' = b \<and> Size a' = Size a \<and> Capacity a' = Capacity a \<and> vector_inv a'
          \<and> leaked w' = leaked w \<and> (Capacity a < Size b \<longrightarrow> a' = a))
       \<and> (\<not> (Capacity a < Size b \<and> alloc_fails E (Size b))
            \<and> (\<forall>j<Size b. \<not> throws E (ops w + j)) \<longrightarrow>
            (\<exists>a' w'. copy_assign E a b w = Returned () (a', b, w')))"
proof -
  let ?xs = "elems a" and ?m = "Capacity a - m_size a"
  let ?ys = "elems b" and ?mb = "Capacity b - m_size b"
  let ?mk = "\<lambda>zs n. \<lparr>m_data = map Some zs @ replicate n None, m_size = length zs\<rparr>"
  have a: "a = ?mk ?xs ?m" using vector_inv_shape(1,2) [OF assms(1)] by simp
  have b: "b = ?mk ?ys ?mb" using vector_inv_shape(1,2) [OF assms(2)] by simp
  have na: "length ?xs = m_size a" and ca: "length ?xs + ?m = Capacity a"
    using vector_inv_shape(2,3) [OF assms(1)] by simp_all
  have nb: "length ?ys = m_size b" using vector_inv_shape(2) [OF assms(2)] by simp
  let ?F = "(length ?xs + ?m < length ?ys \<and> alloc_fails E (length ?ys))
          \<or> (\<exists>j<length ?ys. throws E (ops w + j))"
  let ?a1 = "\<lparr>m_data = map Some ?ys
                @ replicate (if length ?xs + ?m < length ?ys then 0
                             else length ?xs + ?m - length ?ys) None,
              m_size = length ?ys\<rparr>"
  have ok: "copy_assign E a b w = Returned () (?a1, b, w\<lparr>ops := ops w + length ?ys\<rparr>)"
    if "\<not> ?F"
  proof -
    from that have 1: "\<not> (length ?xs + ?m < length ?ys \<and> alloc_fails E (length ?ys))"
      and 2: "\<forall>j<length ?ys. \<not> throws E (ops w + j)" by auto
    from copy_assign_ok_shape [OF 1 2, of ?mb] a b show ?thesis by simp
  qed
  have fail: "\<exists>e a' w'. copy_assign E a b w = Thrown e (a', b, w')
         \<and> leaked w' = leaked w \<and> m_size a' = length ?xs
         \<and> length (m_data a') = length ?xs + ?m \<and> vector_inv a'
         \<and> (length ?xs + ?m < length ?ys \<longrightarrow> a' = a)"
    if "?F"
    using copy_assign_fail_shape [OF that, of ?mb] a b by simp
  have a1: "Size ?a1 = Size b" "elems ?a1 = elems b" "vector_inv ?a1"
    "Capacity ?a1 = (if Capacity a < Size b then Size b else Capacity a)"
  proof -
    show "Size ?a1 = Size b" using nb by (simp add: Size_def)
    show "elems ?a1 = elems b" by (rule elems_shape)
    show "vector_inv ?a1" by (rule vector_inv_intro)
    show "Capacity ?a1 = (if Capacity a < Size b then Size b else Capacity a)"
      using ca nb by (auto simp: Capacity_def Size_def)
  qed
  have ret: "Size a' = Size b \<and> elems a' = elems b \<and> b' = b \<and> vector_inv a'
          \<and> leaked w' = leaked w \<and> ops w' = ops w + Size b
          \<and> Capacity a' = (if Capacity a < Size b then Size b else Capacity a)"
    if r: "copy_assign E a b w = Returned u (a', b', w')" for u a' b' w'
  proof (cases ?F)
    case True
    from fail [OF True] r show ?thesis by auto
  next
    case False
    from ok [OF False] r nb
    have "a' = ?a1" "b' = b" "leaked w' = leaked w" "ops w' = ops w + Size b"
      by (auto simp: Size_def)
    with a1 show ?thesis by simp
  qed
  have thr: "b' = b \<and> Size a' = Size a \<and> Capacity a' = Capacity a \<and> vector_inv a'
          \<and> leaked w' = leaked w \<and> (Capacity a < Size b \<longrightarrow> a' = a)"
    if t: "copy_assign E a b w = Thrown e (a', b', w')" for e a' b' w'
  proof (cases ?F)
    case True
    from fail [OF True] t na ca nb show ?thesis
      by (auto simp: Size_def Capacity_def)
  next
    case False
    from ok [OF False] t show ?thesis by simp
  qed
  have ex: "\<exists>a' w'. copy_assign E a b w = Returned () (a', b, w')"
    if "\<not> (Capacity a < Size b \<and> alloc_fails E (Size b))"
      and "\<forall>j<Size b. \<not> throws E (ops w + j)"
  proof -
    from that ca nb have "\<not> ?F" by (auto simp: Size_def)
    from ok [OF this] show ?thesis by blast
  qed
  show ?thesis using ret thr ex by blast
qed

theorem copy_assign_copies_witness:
  "vector_inv \<lparr>m_data = [Some (1::nat), Some 2, None], m_size = 2\<rparr>
   \<and> vector_inv \<lparr>m_data = [Some (7::nat), Some 8, Some 9, None], m_size = 3\<rparr>
   \<and> (\<exists>a' w'. copy_assign int_like \<lparr>m_data = [Some 1, Some 2, None], m_size = 2\<rparr>
                  \<lparr>m_data = [Some 7, Some 8, Some 9, None], m_size = 3\<rparr> start
                = Returned () (a', \<lparr>m_data = [Some 7, Some 8, Some 9, None], m_size = 3\<rparr>, w')
              \<and> Size a' = 3 \<and> elems a' = [7, 8, 9] \<and> Capacity a' = 3)
   \<and> vector_inv \<lparr>m_data = [Some (1::nat), Some 2], m_size = 2\<rparr>
   \<and> (\<exists>e a' w'. copy_assign (copy_throws_at 1) \<lparr>m_data = [Some 1, Some 2], m_size = 2\<rparr>
                  \<lparr>m_data = [Some 7, Some 8, Some 9, None], m_size = 3\<rparr> start
                = Thrown e (a', \<lparr>m_data = [Some 7, Some 8, Some 9, None], m_size = 3\<rparr>, w')
              \<and> a' = \<lparr>m_data = [Some 1, Some 2], m_size = 2\<rparr>)"
proof -
  let ?a = "\<lparr>m_data = [Some (1::nat), Some 2, None], m_size = 2\<rparr>"
  let ?b = "\<lparr>m_data = [Some (7::nat), Some 8, Some 9, None], m_size = 3\<rparr>"
  let ?c = "\<lparr>m_data = [Some (1::nat), Some 2], m_size = 2\<rparr>"
  have i: "vector_inv ?a" "vector_inv ?b" "vector_inv ?c" by (simp_all add: vector_inv_def)
  have c: "Capacity ?a = 3" "Size ?b = 3" "elems ?b = [7, 8, 9]" "Capacity ?c = 2"
    by (simp_all add: Capacity_def Size_def elems_def)
  note t = copy_assign_copies [OF i(1,2), of int_like start]
  have "\<not> (Capacity ?a < Size ?b \<and> alloc_fails int_like (Size ?b))"
    "\<forall>j<Size ?b. \<not> throws int_like (ops start + j)"
    by (simp_all add: int_like_def)
  with t obtain a' w' where r: "copy_assign int_like ?a ?b start = Returned () (a', ?b, w')"
    by blast
  with t c have p: "Size a' = 3 \<and> elems a' = [7, 8, 9] \<and> Capacity a' = 3" by auto
  note u = copy_assign_copies [OF i(3,2), of "copy_throws_at 1" start]
  have "copy_assign (copy_throws_at 1) ?c ?b start
      = Thrown ElementFailure (?c, ?b, \<lparr>ops = 2, leaked = []\<rparr>)"
    by code_simp
  then obtain e a2 w2 where q: "copy_assign (copy_throws_at 1) ?c ?b start = Thrown e (a2, ?b, w2)"
    by blast
  with u c have "a2 = ?c" by auto
  with i r p q show ?thesis by blast
qed

section \<open>Emplace and move assignment\<close>

text \<open>
  What the remaining operations do in general. Move assignment gives the target the
  block and the size of the source, and the source the block of the target with size 0.
  \<^verbatim>\<open>Emplace\<close> returns \<^verbatim>\<open>num_pos\<close>, which is the position below \<open>2 ^ 31\<close>. It inserts
  correctly when it grows and when it appends to spare capacity; in place, before the
  end, the last slot receives the first element. When a copy throws during growth, the
  handler of \<^verbatim>\<open>EmplaceBack\<close> destroys raw slots, and the handler of the suffix in
  \<^verbatim>\<open>Emplace\<close> leaves the new element alive.
\<close>

lemma move_assign_eq:
  "move_assign a b = (\<lparr>m_data = m_data b, m_size = m_size b\<rparr>, \<lparr>m_data = m_data a, m_size = 0\<rparr>)"
  by (simp add: move_assign_def RawMemory_Swap_def)

lemma move_assign_target:
  "vector_inv b \<Longrightarrow> vector_inv (fst (move_assign a b)) \<and> elems (fst (move_assign a b)) = elems b
     \<and> Size (fst (move_assign a b)) = Size b"
  by (simp add: move_assign_eq vector_inv_def elems_def Size_def)

lemma move_assign_source:
  assumes "vector_inv a" and "0 < m_size a"
  shows "\<not> vector_inv (snd (move_assign a b))"
proof -
  from vector_inv_shape(2) [OF assms(1)] assms(2) obtain z zs where "elems a = z # zs"
    by (cases "elems a") auto
  with vector_inv_shape(1) [OF assms(1)] obtain rest where "m_data a = Some z # rest"
    by simp
  then show ?thesis by (simp add: move_assign_eq vector_inv_def)
qed

lemma to_int_small: "pos < 2 ^ 31 \<Longrightarrow> to_int pos = int pos"
  by (simp add: to_int_def)

lemma Emplace_returns_num_pos:
  "Emplace E pos x v w = Returned r s \<Longrightarrow> r = nat (to_int pos)"
  by (auto simp: Emplace_def Let_def
      split: if_splits sum.splits outcome.splits option.splits prod.splits)

lemma Emplace_returns_position:
  "pos < 2 ^ 31 \<Longrightarrow> Emplace E pos x v w = Returned r s \<Longrightarrow> r = pos"
  by (drule Emplace_returns_num_pos) (simp add: to_int_small)

lemma EmplaceBack_returns_last:
  "EmplaceBack E x v w = Returned r (v', w') \<Longrightarrow> r = Size v' - 1"
  by (auto simp: EmplaceBack_def Size_def
      split: if_splits sum.splits outcome.splits option.splits prod.splits)

lemma EmplaceBack_copy_failure_undefined:
  assumes "\<not> nothrow_move_constructible E" and "copy_constructible E"
    and "xs \<noteq> []" and "\<not> alloc_fails E (length xs * 2)" and "\<not> throws E (ops w)"
    and "jt < length xs" and "\<forall>j<jt. \<not> throws E (Suc (ops w) + j)"
    and "throws E (Suc (ops w) + jt)"
  shows "EmplaceBack E x \<lparr>m_data = map Some xs, m_size = length xs\<rparr> w = Undefined"
proof -
  let ?n = "length xs" and ?c = "length xs * 2"
  let ?v = "\<lparr>m_data = map Some xs, m_size = length xs\<rparr>"
  let ?rest = "Some x # replicate (?c - Suc ?n) None"
  have pos: "0 < ?n" and lt: "?n < ?c" using assms(3) by simp_all
  have al: "Allocate_live E (if m_size ?v = 0 then 1 else m_size ?v * 2) = Inr (replicate ?c None)"
    using assms(3,4) by (simp add: Allocate_live_def)
  have nd: "construct_at E (replicate ?c None) ?n x (ops w)
              = Returned () (replicate ?n None @ ?rest, Suc (ops w))"
    using assms(5) lt raw_update [OF lt, of x] by (simp add: construct_at_def)
  have cp: "uninitialized_copy_n E (map Some xs) 0 ?n (replicate ?n None @ ?rest) 0 (Suc (ops w))
              = Thrown ElementFailure (map Some xs, replicate ?n None @ ?rest,
                  Suc (Suc (ops w) + jt))"
    using uninitialized_copy_loop_throw [where sp = "[]" and ss = "[]" and dq = "[]"
        and ys = "[]" and ds = ?rest and xs = xs and E = E and k = "Suc (ops w)" and jt = jt,
        OF assms(6-8)]
    by (simp add: uninitialized_copy_n_def)
  obtain n' where n': "?n = Suc n'" using pos by (cases ?n) auto
  have ds: "destroy_n (replicate ?n None @ ?rest) 0 ?n = None"
    by (simp add: n' destroy_at_def)
  show ?thesis
    using assms(1,2) al nd cp ds
    by (simp add: EmplaceBack_def Capacity_def)
qed

lemma Emplace_prefix_failure:
  assumes "\<not> nothrow_move_constructible E" and "copy_constructible E"
    and "length xa < 2 ^ 31" and "\<not> alloc_fails E (length (xa @ xb) * 2)"
    and "\<not> throws E (ops w)"
    and "jt < length xa" and "\<forall>j<jt. \<not> throws E (Suc (ops w) + j)"
    and "throws E (Suc (ops w) + jt)"
  shows "Emplace E (length xa) x \<lparr>m_data = map Some (xa @ xb), m_size = length (xa @ xb)\<rparr> w
           = Thrown ElementFailure
               (\<lparr>m_data = map Some (xa @ xb), m_size = length (xa @ xb)\<rparr>,
                w\<lparr>ops := Suc (Suc (ops w) + jt)\<rparr>)"
proof -
  let ?n = "length (xa @ xb)" and ?p = "length xa"
  let ?c = "length (xa @ xb) * 2"
  let ?v = "\<lparr>m_data = map Some (xa @ xb), m_size = length (xa @ xb)\<rparr>"
  let ?rest = "Some x # replicate (?c - Suc ?p) None"
  have ne: "0 < ?n" and lt: "?p < ?c" and nn: "xa \<noteq> []" using assms(6) by auto
  have ti: "to_int ?p = int ?p" using assms(3) by (simp add: to_int_def)
  have al: "Allocate_live E (if m_size ?v = 0 then 1 else m_size ?v * 2) = Inr (replicate ?c None)"
    using assms(4) ne by (simp add: Allocate_live_def)
  have nd: "construct_at E (replicate ?c None) ?p x (ops w)
              = Returned () (replicate ?p None @ ?rest, Suc (ops w))"
    using assms(5) lt raw_update [OF lt, of x] by (simp add: construct_at_def)
  have cp: "uninitialized_copy_n E (map Some xa @ map Some xb) 0 ?p (replicate ?p None @ ?rest) 0
              (Suc (ops w))
            = Thrown ElementFailure (map Some xa @ map Some xb, replicate ?p None @ ?rest,
                Suc (Suc (ops w) + jt))"
    using uninitialized_copy_loop_throw [where sp = "[]" and ss = "map Some xb" and dq = "[]"
        and ys = "[]" and ds = ?rest and xs = xa and E = E and k = "Suc (ops w)" and jt = jt,
        OF assms(6-8)]
    by (simp add: uninitialized_copy_n_def)
  have da: "destroy_at (replicate ?p None @ ?rest) ?p
              = Some (replicate ?p None @ None # replicate (?c - Suc ?p) None)"
    by (simp add: destroy_at_def nth_append list_update_append)
  show ?thesis
    using assms(1,2) nn ti al nd cp da
    by (simp add: Emplace_def Let_def Capacity_def RawMemory_dtor_def)
qed

lemma Emplace_suffix_failure:
  assumes "\<not> nothrow_move_constructible E" and "copy_constructible E"
    and "length xa < 2 ^ 31" and "\<not> alloc_fails E (length (xa @ xb) * 2)"
    and "\<not> throws E (ops w)" and "\<forall>j<length xa. \<not> throws E (Suc (ops w) + j)"
    and "jt < length xb" and "\<forall>j<jt. \<not> throws E (Suc (ops w) + length xa + j)"
    and "throws E (Suc (ops w) + length xa + jt)"
  shows "Emplace E (length xa) x \<lparr>m_data = map Some (xa @ xb), m_size = length (xa @ xb)\<rparr> w
           = Thrown ElementFailure
               (\<lparr>m_data = map Some (xa @ xb), m_size = length (xa @ xb)\<rparr>,
                w\<lparr>ops := Suc (Suc (ops w) + length xa + jt), leaked := leaked w @ [x]\<rparr>)"
proof -
  let ?n = "length (xa @ xb)" and ?p = "length xa"
  let ?c = "length (xa @ xb) * 2"
  let ?v = "\<lparr>m_data = map Some (xa @ xb), m_size = length (xa @ xb)\<rparr>"
  let ?tail = "replicate (?c - Suc ?n) None :: 'a option list"
  let ?rest = "Some x # replicate (length xb) None @ ?tail"
  have ne: "0 < ?n" and lt: "?p < ?c" and nn: "xb \<noteq> []" using assms(7) by auto
  have ti: "to_int ?p = int ?p" using assms(3) by (simp add: to_int_def)
  have al: "Allocate_live E (if m_size ?v = 0 then 1 else m_size ?v * 2) = Inr (replicate ?c None)"
    using assms(4) ne by (simp add: Allocate_live_def)
  have sp: "replicate (?c - Suc ?p) None = replicate (length xb) None @ ?tail"
    using ne by (simp flip: replicate_add)
  have nd: "construct_at E (replicate ?c None) ?p x (ops w)
              = Returned () (replicate ?p None @ ?rest, Suc (ops w))"
    using assms(5) lt raw_update [OF lt, of x] sp by (simp add: construct_at_def)
  have c1: "uninitialized_copy_n E (map Some xa @ map Some xb) 0 ?p (replicate ?p None @ ?rest) 0
              (Suc (ops w))
            = Returned () (map Some xa @ map Some xb, map Some xa @ ?rest, Suc (ops w) + ?p)"
    using uninitialized_copy_loop_ok [where sp = "[]" and ss = "map Some xb" and dp = "[]"
        and d_first = 0 and ds = ?rest and xs = xa and E = E and k = "Suc (ops w)", OF assms(6)]
    by (simp add: uninitialized_copy_n_def)
  have c2: "uninitialized_copy_n E (map Some xa @ map Some xb) ?p (length xb)
              (map Some xa @ ?rest) (Suc ?p) (Suc (ops w) + ?p)
            = Thrown ElementFailure (map Some xa @ map Some xb, map Some xa @ ?rest,
                Suc (Suc (ops w) + ?p + jt))"
    using uninitialized_copy_loop_throw [where sp = "map Some xa" and ss = "[]"
        and dq = "map Some xa @ [Some x]" and ys = "[]" and ds = ?tail and xs = xb and E = E
        and k = "Suc (ops w) + ?p" and jt = jt, OF assms(7-9)]
    by (simp add: uninitialized_copy_n_def)
  have ds: "destroy_n (map Some xa @ ?rest) 0 ?p = Some (replicate ?p None @ ?rest)"
    using destroy_n_live [where pre = "[]" and xs = xa and post = ?rest] by simp
  show ?thesis
    using assms(1,2) nn ti al nd c1 c2 ds
    by (simp add: Emplace_def Let_def Capacity_def RawMemory_dtor_def)
qed

lemma std_move_backward_ok:
  "\<forall>j<length ys. \<not> throws E (k + j) \<Longrightarrow>
   std_move_backward E (pre @ map Some ys @ Some z # post) (length pre + length ys) (length ys)
       (Suc (length pre + length ys)) k
     = Returned ()
         (if ys = [] then pre @ Some z # post
          else pre @ Some (moved_from E (hd ys)) # map Some ys @ post,
          k + length ys)"
proof (induction ys arbitrary: z post k rule: rev_induct)
  case Nil
  then show ?case by simp
next
  case (snoc y ys)
  have nt: "\<not> throws E k" using snoc.prems by force
  have rest: "\<forall>j<length ys. \<not> throws E (Suc k + j)" using snoc.prems by force
  have ih: "std_move_backward E (pre @ map Some ys @ Some (moved_from E y) # Some y # post)
              (length pre + length ys) (length ys) (Suc (length pre + length ys)) (Suc k)
            = Returned ()
                (if ys = [] then pre @ Some (moved_from E y) # Some y # post
                 else pre @ Some (moved_from E (hd ys)) # map Some ys @ Some y # post,
                 Suc k + length ys)"
    by (rule snoc.IH [OF rest])
  have rd: "(pre @ map Some ys @ Some y # Some z # post) ! (length pre + length ys) = Some y"
    "(pre @ map Some ys @ Some y # Some z # post) ! Suc (length pre + length ys) = Some z"
    by (simp_all add: nth_append)
  have up: "(pre @ map Some ys @ Some y # Some z # post)
              [length pre + length ys := Some (moved_from E y),
               Suc (length pre + length ys) := Some y]
            = pre @ map Some ys @ Some (moved_from E y) # Some y # post"
    by (simp add: list_update_append)
  show ?case using nt ih rd up by (simp add: hd_append)
qed

lemma Emplace_end_ok:
  assumes "length xs < 2 ^ 31" and "\<not> throws E (ops w)"
  shows "Emplace E (length xs) x
             \<lparr>m_data = map Some xs @ replicate (Suc m) None, m_size = length xs\<rparr> w
           = Returned (length xs)
               (\<lparr>m_data = map Some (xs @ [x]) @ replicate m None, m_size = length (xs @ [x])\<rparr>,
                w\<lparr>ops := Suc (ops w)\<rparr>)"
  using assms
  by (simp add: Emplace_def Let_def to_int_def Capacity_def construct_at_def nth_append
      list_update_append)

lemma Emplace_in_place_result:
  assumes "length xa < 2 ^ 31" and "xb \<noteq> []" and "\<forall>k. \<not> throws E k"
  shows "Emplace E (length xa) x
             \<lparr>m_data = map Some (xa @ xb) @ replicate (Suc m) None, m_size = length (xa @ xb)\<rparr> w
           = Returned (length xa)
               (\<lparr>m_data = map Some
                    (take (length xa) ((xa @ xb)[0 := moved_from E (hd (xa @ xb))]) @ [x]
                       @ butlast (drop (length xa) ((xa @ xb)[0 := moved_from E (hd (xa @ xb))]))
                       @ [hd (xa @ xb)])
                    @ replicate m None,
                  m_size = Suc (length (xa @ xb))\<rparr>,
                w\<lparr>ops := move_ctor_tick E (Suc (ops w)) + length xb\<rparr>)"
proof -
  let ?xs = "xa @ xb" and ?p = "length xa"
  let ?n = "length (xa @ xb)"
  obtain h t where ht: "?xs = h # t" using assms(2) by (cases ?xs) auto
  let ?xs' = "moved_from E h # t"
  let ?xa' = "take ?p ?xs'" and ?xb' = "drop ?p ?xs'"
  have lx: "length ?xs' = ?n" using ht by (metis length_Cons)
  have lxa: "length ?xa' = ?p" using lx by simp
  have xbn: "?xb' \<noteq> []" using lx assms(2) by simp
  then obtain ys l where yl: "?xb' = ys @ [l]" by (metis rev_exhaust)
  have lys: "length ys = ?n - 1 - ?p"
    using yl lx by (metis One_nat_def diff_diff_left length_append_singleton length_drop
        diff_Suc_1 plus_1_eq_Suc add.commute)
  have split: "?xs' = ?xa' @ ys @ [l]" using yl by (metis append_take_drop_id)
  have k: "move_ctor_throws E (Suc (ops w)) = False" using assms(3)
    by (simp add: move_ctor_throws_def)
  let ?k2 = "move_ctor_tick E (Suc (ops w))"
  let ?st0 = "map Some ?xs @ replicate (Suc m) None"
  let ?st1 = "map Some ?xa' @ map Some ys @ Some l # (Some h # replicate m None)"
  have mc: "move_construct_at E ?st0 0 ?n (Suc (ops w)) = Returned () (?st1, ?k2)"
  proof -
    have "?st0[0 := Some (moved_from E h), ?n := Some h]
            = map Some ?xs' @ Some h # replicate m None"
      using ht lx by (simp add: list_update_append)
    also have "\<dots> = ?st1" by (subst split) simp
    finally have u: "?st0[0 := Some (moved_from E h), ?n := Some h] = ?st1" .
    have r: "?st0 ! 0 = Some h" "?st0 ! ?n = None"
      using ht by (simp_all add: nth_append)
    have "0 < length ?st0" "?n < length ?st0" by simp_all
    with r u k show ?thesis by (simp add: move_construct_at_def del: list_update.simps)
  qed
  have mb: "std_move_backward E ?st1 (?n - 1) (?n - 1 - ?p) ?n ?k2
            = Returned ()
                (if ys = [] then map Some ?xa' @ Some l # (Some h # replicate m None)
                 else map Some ?xa' @ Some (moved_from E (hd ys)) # map Some ys
                        @ (Some h # replicate m None),
                 ?k2 + length ys)"
  proof -
    have nt: "\<forall>j<length ys. \<not> throws E (?k2 + j)" using assms(3) by simp
    have e1: "?n - 1 = length (map Some ?xa') + length ys" using lys lxa lx assms(2)
      by (simp add: Suc_leI)
    have e2: "?n = Suc (length (map Some ?xa') + length ys)" using lys lxa lx assms(2)
      by (simp add: Suc_leI)
    have e3: "?n - 1 - ?p = length ys" using lys by simp
    show ?thesis
      using std_move_backward_ok [OF nt, where pre = "map Some ?xa'" and z = l
          and post = "Some h # replicate m None"]
      unfolding e3 by (subst e1, subst e2) simp
  qed
  let ?st3 = "map Some ?xa' @ Some x # map Some ys @ Some h # replicate m None"
  have ma: "move_assign_at E
              (if ys = [] then map Some ?xa' @ Some l # (Some h # replicate m None)
               else map Some ?xa' @ Some (moved_from E (hd ys)) # map Some ys
                      @ (Some h # replicate m None))
              ?p x (?k2 + length ys)
            = Returned () (?st3, Suc (?k2 + length ys))"
    using assms(3) lxa by (simp add: move_assign_at_def nth_append list_update_append)
  have res: "take ?p (?xs[0 := moved_from E (hd ?xs)]) @ [x]
               @ butlast (drop ?p (?xs[0 := moved_from E (hd ?xs)])) @ [hd ?xs]
             = ?xa' @ [x] @ ys @ [h]"
    using ht yl by simp
  have lb: "length xb = Suc (length ys)" using lys assms(2) by (simp add: Suc_leI)
  have ti: "to_int ?p = int ?p" using assms(1) by (simp add: to_int_def)
  have nt0: "\<not> throws E (ops w)" using assms(3) by simp
  have "Emplace E ?p x \<lparr>m_data = ?st0, m_size = ?n\<rparr> w
          = Returned ?p (\<lparr>m_data = ?st3, m_size = Suc ?n\<rparr>, w\<lparr>ops := Suc (?k2 + length ys)\<rparr>)"
    using assms(2) ti nt0 mc mb ma
    by (simp add: Emplace_def Let_def Capacity_def del: list_update.simps)
  then show ?thesis unfolding res using lb by simp
qed

lemma Emplace_grow_ok:
  assumes "length xa < 2 ^ 31"
    and c: "c = (if xa @ xb = [] then 1 else length (xa @ xb) * 2)"
    and "\<not> alloc_fails E c" and "\<not> throws E (ops w)"
    and "nothrow_move_constructible E \<or> (\<forall>j<length (xa @ xb). \<not> throws E (Suc (ops w) + j))"
  shows "Emplace E (length xa) x \<lparr>m_data = map Some (xa @ xb), m_size = length (xa @ xb)\<rparr> w
           = Returned (length xa)
               (\<lparr>m_data = map Some (xa @ [x] @ xb) @ replicate (c - Suc (length (xa @ xb))) None,
                  m_size = Suc (length (xa @ xb))\<rparr>,
                w\<lparr>ops := if nothrow_move_constructible E then Suc (ops w)
                          else Suc (ops w) + length (xa @ xb)\<rparr>)"
proof -
  let ?n = "length (xa @ xb)" and ?p = "length xa"
  define v where "v = \<lparr>m_data = map Some (xa @ xb), m_size = length (xa @ xb)\<rparr>"
  have vd: "m_data v = map Some xa @ map Some xb" and vn: "m_size v = ?p + length xb"
    and vc: "Capacity v = ?p + length xb"
    by (simp_all add: v_def Capacity_def)
  let ?tail = "replicate (c - Suc ?n) None :: 'a option list"
  let ?rest = "Some x # replicate (length xb) None @ ?tail"
  have c': "c = (if length xa + length xb = 0 then 1 else (length xa + length xb) * 2)"
    using c by simp
  have lt: "?p < c" and ge: "Suc ?n \<le> c"
    unfolding c' length_append by (cases xa; cases xb; simp)+
  have ti: "to_int ?p = int ?p" using assms(1) by (simp add: to_int_def)
  have al: "Allocate_live E (if m_size v = 0 then 1 else m_size v * 2) = Inr (replicate c None)"
    using assms(3) c by (auto simp: Allocate_live_def vn split: if_splits)
  have sp: "replicate (c - Suc ?p) None = replicate (length xb) None @ ?tail"
    using ge by (simp flip: replicate_add)
  have nd: "construct_at E (replicate c None) ?p x (ops w)
              = Returned () (replicate ?p None @ ?rest, Suc (ops w))"
    using assms(4) lt raw_update [OF lt, of x] sp by (simp add: construct_at_def)
  have ds: "destroy_n (map Some ys @ map Some zs) 0 (?p + length xb)
              = Some (replicate (?p + length xb) None)"
    if "length ys = ?p" "length zs = length xb" for ys zs :: "'a list"
    using destroy_n_live [where pre = "[]" and post = "[]" and xs = "ys @ zs"] that by simp
  have res: "Emplace E ?p x v w
           = Returned ?p
               (\<lparr>m_data = map Some xa @ Some x # map Some xb @ ?tail, m_size = Suc (?p + length xb)\<rparr>,
                w\<lparr>ops := if nothrow_move_constructible E then Suc (ops w)
                          else Suc (ops w) + (?p + length xb)\<rparr>)"
  proof (cases "nothrow_move_constructible E \<or> \<not> copy_constructible E")
    case True
    have h1: "nothrow_move_constructible E \<or> (\<forall>j<length xa. \<not> throws E (Suc (ops w) + j))"
      using assms(5) by auto
    let ?k1 = "if nothrow_move_constructible E then Suc (ops w) else Suc (ops w) + ?p"
    have h2: "nothrow_move_constructible E \<or> (\<forall>j<length xb. \<not> throws E (?k1 + j))"
      using assms(5) by (auto simp: add.assoc)
    have m1: "uninitialized_move_n E (map Some xa @ map Some xb) 0 ?p
                (replicate ?p None @ ?rest) 0 (Suc (ops w))
              = Returned () (map Some (map (moved_from E) xa) @ map Some xb,
                  map Some xa @ ?rest, ?k1)"
      using uninitialized_move_loop_ok [where sp = "[]" and ss = "map Some xb" and dp = "[]"
          and d_first = 0 and ds = ?rest and xs = xa and E = E and k = "Suc (ops w)", OF h1]
      by (simp add: uninitialized_move_n_def)
    have m2: "uninitialized_move_n E (map Some (map (moved_from E) xa) @ map Some xb) ?p
                (length xb) (map Some xa @ ?rest) (Suc ?p) ?k1
              = Returned () (map Some (map (moved_from E) xa) @ map Some (map (moved_from E) xb),
                  map Some xa @ Some x # map Some xb @ ?tail,
                  if nothrow_move_constructible E then ?k1 else ?k1 + length xb)"
      using uninitialized_move_loop_ok [where sp = "map Some (map (moved_from E) xa)"
          and ss = "[]" and dp = "map Some xa @ [Some x]" and d_first = "Suc ?p" and ds = ?tail
          and xs = xb and E = E and k = ?k1, OF h2]
      by (simp add: uninitialized_move_n_def)
    show ?thesis
      using True ti al nd m1 m2
        ds [of "map (moved_from E) xa" "map (moved_from E) xb"]
      by (simp add: Emplace_def Let_def vd vn vc RawMemory_dtor_def add.assoc)
  next
    case False
    then have nt: "\<forall>j<length (xa @ xb). \<not> throws E (Suc (ops w) + j)" using assms(5) by simp
    have h1: "\<forall>j<length xa. \<not> throws E (Suc (ops w) + j)" using nt by simp
    have h2: "\<forall>j<length xb. \<not> throws E (Suc (ops w) + ?p + j)"
      using nt by (simp add: add.assoc)
    have c1: "uninitialized_copy_n E (map Some xa @ map Some xb) 0 ?p
                (replicate ?p None @ ?rest) 0 (Suc (ops w))
              = Returned () (map Some xa @ map Some xb, map Some xa @ ?rest, Suc (ops w) + ?p)"
      using uninitialized_copy_loop_ok [where sp = "[]" and ss = "map Some xb" and dp = "[]"
          and d_first = 0 and ds = ?rest and xs = xa and E = E and k = "Suc (ops w)", OF h1]
      by (simp add: uninitialized_copy_n_def)
    have c2: "uninitialized_copy_n E (map Some xa @ map Some xb) ?p (length xb)
                (map Some xa @ ?rest) (Suc ?p) (Suc (ops w) + ?p)
              = Returned () (map Some xa @ map Some xb,
                  map Some xa @ Some x # map Some xb @ ?tail, Suc (ops w) + ?p + length xb)"
      using uninitialized_copy_loop_ok [where sp = "map Some xa" and ss = "[]"
          and dp = "map Some xa @ [Some x]" and d_first = "Suc ?p" and ds = ?tail
          and xs = xb and E = E and k = "Suc (ops w) + ?p", OF h2]
      by (simp add: uninitialized_copy_n_def)
    show ?thesis
      using False ti al nd c1 c2 ds [of xa xb]
      by (simp add: Emplace_def Let_def vd vn vc RawMemory_dtor_def add.assoc)
  qed
  then show ?thesis by (simp add: v_def)
qed

section \<open>Where the code departs from its specification\<close>

text \<open>
  C1. Inserting \<open>v\<close> at index \<open>i\<close> into \<open>[a0, ..., a(n-1)]\<close> is to give
  \<open>[a0, ..., a(i-1), v, ai, ..., a(n-1)]\<close>, also when no growth is needed and \<open>i < n\<close>.
  On that path the code builds the new last slot from \<^verbatim>\<open>data_[0]\<close>, not from the last
  element: inserting 3 at index 1 into \<open>[1, 2, 4]\<close> with a spare slot gives
  \<open>[1, 3, 2, 1]\<close>, and the 4 is lost.
\<close>

theorem Emplace_in_place_loses_last:
  "Emplace int_like 1 3 \<lparr>m_data = [Some 1, Some 2, Some 4, None], m_size = 3\<rparr> start
     = Returned 1
         (\<lparr>m_data = [Some 1, Some 3, Some 2, Some 1], m_size = 4\<rparr>,
          \<lparr>ops = 3, leaked = []\<rparr>)"
  by code_simp

text \<open>
  C2. When growth-triggered \<^verbatim>\<open>Emplace\<close> copies and a copy of the suffix throws, every
  object built in the new block, the new element included, is to be destroyed. The
  handler of the suffix destroys the slots \<open>[0, num_pos)\<close> only: the new element, at
  \<open>num_pos\<close>, is still alive when the block is freed. Here the vector is \<open>[1, 2]\<close> at
  capacity 2, 9 is inserted at index 1 and the copy of the 2 throws: the vector is
  unchanged, and 9 is leaked.
\<close>

theorem Emplace_suffix_failure_leaks_new_element:
  "Emplace (copy_throws_at 2) 1 9 \<lparr>m_data = [Some 1, Some 2], m_size = 2\<rparr> start
     = Thrown ElementFailure
         (\<lparr>m_data = [Some 1, Some 2], m_size = 2\<rparr>, \<lparr>ops = 3, leaked = [9]\<rparr>)"
  by code_simp

text \<open>
  C3. When growth-triggered \<^verbatim>\<open>EmplaceBack\<close> copies and a copy throws, each object
  built in the new block is to be destroyed once and no destruction is to act on a slot
  that is not live. \<^verbatim>\<open>uninitialized_copy_n\<close> has destroyed what it built when the
  exception reaches the handler, and the handler destroys the slots \<open>[0, size_)\<close> of the
  new block all the same, while the new element, at \<open>size_\<close>, is never destroyed. Here
  the vector is \<open>[1, 2]\<close> at capacity 2 and the copy of the 1 throws: the handler
  destroys slot 0 of the new block, which holds no object.
\<close>

theorem EmplaceBack_failure_destroys_raw_slots:
  "EmplaceBack (copy_throws_at 1) 9 \<lparr>m_data = [Some 1, Some 2], m_size = 2\<rparr> start
     = Undefined"
  by code_simp

text \<open>
  C4. After the move assignment \<open>a = std::move(b)\<close> the source \<open>b\<close> is to hold the
  former block of \<open>a\<close> with the former size of \<open>a\<close>. The code swaps the blocks and
  sets the size of \<open>b\<close> to 0: with \<open>a = [1, 2]\<close> and \<open>b = [3]\<close>, \<open>b\<close> ends with the
  block that holds 1 and 2 alive, and size 0.
\<close>

theorem move_assign_source_size_zero:
  "move_assign \<lparr>m_data = [Some 1, Some 2], m_size = 2\<rparr>
       \<lparr>m_data = [Some (3::nat), None], m_size = 1\<rparr>
     = (\<lparr>m_data = [Some 3, None], m_size = 1\<rparr>, \<lparr>m_data = [Some 1, Some 2], m_size = 0\<rparr>)"
  by code_simp

text \<open>
  C9. Every operation is to keep the invariant, for a moved-from vector too. After the
  move assignment of C4 both vectors held the invariant before, and the source does not
  hold it after: its slots 0 and 1, beyond its size 0, are live.
\<close>

theorem move_assign_breaks_invariant:
  "vector_inv \<lparr>m_data = [Some (1::nat), Some 2], m_size = 2\<rparr>
   \<and> vector_inv \<lparr>m_data = [Some (3::nat), None], m_size = 1\<rparr>
   \<and> \<not> vector_inv
         (snd (move_assign \<lparr>m_data = [Some 1, Some 2], m_size = 2\<rparr>
                 \<lparr>m_data = [Some (3::nat), None], m_size = 1\<rparr>))"
  by code_simp

text \<open>
  C10. \<^verbatim>\<open>Emplace\<close> is to return the iterator \<^verbatim>\<open>begin() + position\<close>. It returns
  \<^verbatim>\<open>begin() + num_pos\<close>, and \<^verbatim>\<open>num_pos\<close> is an \<^verbatim>\<open>int\<close>: in a vector of \<open>2 ^ 32\<close>
  elements with a spare slot, \<^verbatim>\<open>Emplace(end(), 7)\<close> appends the 7 at index \<open>2 ^ 32\<close> and
  returns \<^verbatim>\<open>begin() + 0\<close>.
\<close>

theorem Emplace_returns_truncated_position:
  "Emplace int_like (2 ^ 32) 7
       \<lparr>m_data = replicate (2 ^ 32) (Some 0) @ [None], m_size = 2 ^ 32\<rparr> start
     = Returned 0
         (\<lparr>m_data = replicate (2 ^ 32) (Some 0) @ [Some 7], m_size = 2 ^ 32 + 1\<rparr>,
          \<lparr>ops = 1, leaked = []\<rparr>)"
  by (simp add: Emplace_def to_int_def Capacity_def construct_at_def int_like_def start_def
      nth_append list_update_append)

end
